theory Spec2Isabelle
  imports Main "HOL-Library.Word" "HOL-Library.Sublist" "HOL-Library.Multiset"
    "HOL-Library.List_Lexorder" "HOL-Library.Product_Lexorder"
begin

section \<open>JavaScript strings and exceptions\<close>

text \<open>
  A JavaScript string is a sequence of 16-bit UTF-16 code units. Literals of the source are
  written with \<open>js\<close>, which maps each ASCII character to its code unit.
\<close>

type_synonym code_unit = "16 word"
type_synonym jsstring = "code_unit list"

definition js :: "string \<Rightarrow> jsstring" where
  "js s = map of_char s"

text \<open>
  Exceptions of the platform that the modelled code can meet. A function that can throw
  returns \<open>exn + 'a\<close>, with \<open>Inl\<close> the exception; a promise that settles is the same sum,
  with \<open>Inl\<close> the rejection reason.
\<close>

datatype exn =
    URIError
  | TypeError
  | NS_ERROR_MALFORMED_URI
  | NS_ERROR_INVALID_ARG
  | RepositoryError

subsection \<open>encodeURIComponent (ECMA-262, Encode with the unreserved set)\<close>

definition uriUnescaped :: "code_unit \<Rightarrow> bool" where
  \<comment> \<open>letters, digits and the marks \<open>- _ . ! ~ * ' ( )\<close>\<close>
  "uriUnescaped c \<longleftrightarrow>
     (0x41 \<le> c \<and> c \<le> 0x5A) \<or> (0x61 \<le> c \<and> c \<le> 0x7A) \<or> (0x30 \<le> c \<and> c \<le> 0x39) \<or>
     c \<in> {0x2D, 0x5F, 0x2E, 0x21, 0x7E, 0x2A, 0x27, 0x28, 0x29}"

definition isLeadSurrogate :: "code_unit \<Rightarrow> bool" where
  "isLeadSurrogate c \<longleftrightarrow> 0xD800 \<le> c \<and> c \<le> 0xDBFF"

definition isTrailSurrogate :: "code_unit \<Rightarrow> bool" where
  "isTrailSurrogate c \<longleftrightarrow> 0xDC00 \<le> c \<and> c \<le> 0xDFFF"

definition surrogatePair :: "code_unit \<Rightarrow> code_unit \<Rightarrow> nat" where
  \<comment> \<open>UTF16SurrogatePairToCodePoint\<close>
  "surrogatePair lead trail = (unat lead - 0xD800) * 0x400 + (unat trail - 0xDC00) + 0x10000"

definition utf8 :: "nat \<Rightarrow> nat list" where
  \<comment> \<open>the octets of the UTF-8 encoding of a code point\<close>
  "utf8 cp =
     (if cp < 0x80 then [cp]
      else if cp < 0x800 then [0xC0 + cp div 0x40, 0x80 + cp mod 0x40]
      else if cp < 0x10000 then
        [0xE0 + cp div 0x1000, 0x80 + (cp div 0x40) mod 0x40, 0x80 + cp mod 0x40]
      else
        [0xF0 + cp div 0x40000, 0x80 + (cp div 0x1000) mod 0x40,
         0x80 + (cp div 0x40) mod 0x40, 0x80 + cp mod 0x40])"

definition hexDigit :: "nat \<Rightarrow> code_unit" where
  \<comment> \<open>upper-case hexadecimal digit of a value below 16\<close>
  "hexDigit d = (if d < 10 then of_nat (0x30 + d) else of_nat (0x41 + (d - 10)))"

definition pctOctet :: "nat \<Rightarrow> jsstring" where
  "pctOctet b = [0x25, hexDigit (b div 16), hexDigit (b mod 16)]"

definition pctOctets :: "nat list \<Rightarrow> jsstring" where
  "pctOctets bs = concat (map pctOctet bs)"

fun encodeURIComponent :: "jsstring \<Rightarrow> exn + jsstring" where
  "encodeURIComponent [] = Inr []"
| "encodeURIComponent [c] =
     (if uriUnescaped c then Inr [c]
      else if isLeadSurrogate c \<or> isTrailSurrogate c then Inl URIError
      else Inr (pctOctets (utf8 (unat c))))"
| "encodeURIComponent (c # d # ds) =
     (if uriUnescaped c then
        (case encodeURIComponent (d # ds) of Inl e \<Rightarrow> Inl e | Inr r \<Rightarrow> Inr (c # r))
      else if isLeadSurrogate c then
        (if isTrailSurrogate d then
           (case encodeURIComponent ds of Inl e \<Rightarrow> Inl e
            | Inr r \<Rightarrow> Inr (pctOctets (utf8 (surrogatePair c d)) @ r))
         else Inl URIError)
      else if isTrailSurrogate c then Inl URIError
      else
        (case encodeURIComponent (d # ds) of Inl e \<Rightarrow> Inl e
         | Inr r \<Rightarrow> Inr (pctOctets (utf8 (unat c)) @ r)))"

subsection \<open>decodeURIComponent (ECMA-262, Decode with no reserved character)\<close>

definition hexValue :: "code_unit \<Rightarrow> nat option" where
  "hexValue c =
     (if 0x30 \<le> c \<and> c \<le> 0x39 then Some (unat c - 0x30)
      else if 0x41 \<le> c \<and> c \<le> 0x46 then Some (unat c - 0x41 + 10)
      else if 0x61 \<le> c \<and> c \<le> 0x66 then Some (unat c - 0x61 + 10)
      else None)"

fun parsePct :: "jsstring \<Rightarrow> (nat \<times> jsstring) option" where
  \<comment> \<open>an escape \<open>%XY\<close> at the head: its octet and what follows\<close>
  "parsePct (p # h # l # s) =
     (if p = 0x25 then
        (case hexValue h of None \<Rightarrow> None
         | Some a \<Rightarrow> (case hexValue l of None \<Rightarrow> None | Some b \<Rightarrow> Some (16 * a + b, s)))
      else None)"
| "parsePct s = None"

fun contOctets :: "nat \<Rightarrow> jsstring \<Rightarrow> (nat list \<times> jsstring) option" where
  \<comment> \<open>\<open>n\<close> more escapes, each a continuation octet \<open>10xxxxxx\<close>\<close>
  "contOctets 0 s = Some ([], s)"
| "contOctets (Suc n) s =
     (case parsePct s of None \<Rightarrow> None
      | Some (b, s') \<Rightarrow>
          if 0x80 \<le> b \<and> b < 0xC0 then
            (case contOctets n s' of None \<Rightarrow> None | Some (bs, s'') \<Rightarrow> Some (b # bs, s''))
          else None)"

definition utf8Decode :: "nat list \<Rightarrow> nat option" where
  \<comment> \<open>the code point of a well-formed UTF-8 sequence of two to four octets: not over-long,
      not a surrogate, at most \<open>0x10FFFF\<close>\<close>
  "utf8Decode bs =
     (case bs of
        [b0, b1] \<Rightarrow>
          (let cp = (b0 - 0xC0) * 0x40 + (b1 - 0x80) in if 0x80 \<le> cp then Some cp else None)
      | [b0, b1, b2] \<Rightarrow>
          (let cp = (b0 - 0xE0) * 0x1000 + (b1 - 0x80) * 0x40 + (b2 - 0x80)
           in if 0x800 \<le> cp \<and> \<not> (0xD800 \<le> cp \<and> cp \<le> 0xDFFF) then Some cp else None)
      | [b0, b1, b2, b3] \<Rightarrow>
          (let cp = (b0 - 0xF0) * 0x40000 + (b1 - 0x80) * 0x1000 + (b2 - 0x80) * 0x40 + (b3 - 0x80)
           in if 0x10000 \<le> cp \<and> cp \<le> 0x10FFFF then Some cp else None)
      | _ \<Rightarrow> None)"

definition utf16Encode :: "nat \<Rightarrow> jsstring" where
  "utf16Encode cp =
     (if cp < 0x10000 then [of_nat cp]
      else [of_nat (0xD800 + (cp - 0x10000) div 0x400), of_nat (0xDC00 + (cp - 0x10000) mod 0x400)])"

lemma parsePct_shorter: "parsePct s = Some (b, s') \<Longrightarrow> length s' < length s"
  by (induction s rule: parsePct.induct) (auto split: if_splits option.splits)

lemma contOctets_shorter: "contOctets n s = Some (bs, s') \<Longrightarrow> length s' \<le> length s"
proof (induction n arbitrary: s bs s')
  case 0
  then show ?case by simp
next
  case (Suc n)
  then show ?case
    by (fastforce split: option.splits prod.splits if_splits dest: parsePct_shorter)
qed

function decodeURIComponent :: "jsstring \<Rightarrow> exn + jsstring" where
  "decodeURIComponent [] = Inr []"
| "decodeURIComponent (c # cs) =
     (if c \<noteq> 0x25 then
        (case decodeURIComponent cs of Inl e \<Rightarrow> Inl e | Inr r \<Rightarrow> Inr (c # r))
      else
        (case parsePct (c # cs) of
           None \<Rightarrow> Inl URIError
         | Some (b, s) \<Rightarrow>
             if b < 0x80 then
               (case decodeURIComponent s of Inl e \<Rightarrow> Inl e | Inr r \<Rightarrow> Inr (of_nat b # r))
             else if b < 0xC0 \<or> 0xF8 \<le> b then Inl URIError
             else
               (case contOctets (if b < 0xE0 then Suc 0 else if b < 0xF0 then Suc (Suc 0) else Suc (Suc (Suc 0))) s of
                  None \<Rightarrow> Inl URIError
                | Some (bs, s') \<Rightarrow>
                    (case utf8Decode (b # bs) of
                       None \<Rightarrow> Inl URIError
                     | Some cp \<Rightarrow>
                         (case decodeURIComponent s' of Inl e \<Rightarrow> Inl e
                          | Inr r \<Rightarrow> Inr (utf16Encode cp @ r))))))"
  by pat_completeness auto
termination
proof (relation "measure length", goal_cases)
  case 1
  show ?case by simp
next
  case (2 c cs)
  then show ?case by simp
next
  case (3 c cs x b s)
  then show ?case using parsePct_shorter [of "c # cs" b s] by simp
next
  case (4 c cs x b s y bs s' cp)
  then show ?case
    using parsePct_shorter [of "c # cs" b s]
      contOctets_shorter [of "if b < 0xE0 then Suc 0 else if b < 0xF0 then Suc (Suc 0) else Suc (Suc (Suc 0))" s bs s']
    by simp
qed

subsection \<open>Regular expressions made of literal characters\<close>

text \<open>
  The source uses three regular expressions, \<open>/%s/\<close>, \<open>/%s/g\<close> and \<open>/%20/g\<close>; each is a
  sequence of literal characters. \<open>regexTest\<close> is \<open>RegExp.prototype.test\<close> for such a
  pattern without the global flag: is there a position where the pattern matches.
\<close>

fun regexTest :: "jsstring \<Rightarrow> jsstring \<Rightarrow> bool" where
  "regexTest pat [] = (pat = [])"
| "regexTest pat (c # cs) = (prefix pat (c # cs) \<or> regexTest pat cs)"

text \<open>
  \<open>String.prototype.replace\<close> with a replacement string expands the dollar patterns of the
  replacement (ECMA-262, GetSubstitution). The patterns of the source have no capture group,
  so \<open>$$\<close>, \<open>$&\<close>, \<open>$`\<close> and \<open>$'\<close> are the ones that expand; any other dollar stays.
\<close>

fun getSubstitution :: "jsstring \<Rightarrow> jsstring \<Rightarrow> jsstring \<Rightarrow> jsstring \<Rightarrow> jsstring" where
  "getSubstitution matched passed rest [] = []"
| "getSubstitution matched passed rest [c] = [c]"
| "getSubstitution matched passed rest (c # d # r) =
     (if c = 0x24 \<and> d = 0x24 then 0x24 # getSubstitution matched passed rest r
      else if c = 0x24 \<and> d = 0x26 then matched @ getSubstitution matched passed rest r
      else if c = 0x24 \<and> d = 0x60 then passed @ getSubstitution matched passed rest r
      else if c = 0x24 \<and> d = 0x27 then rest @ getSubstitution matched passed rest r
      else c # getSubstitution matched passed rest (d # r))"

text \<open>
  The global replace scans from the left; at a match it emits the expanded replacement and
  continues after the match, otherwise it copies one code unit. \<open>passed\<close> is the part of the
  subject already passed. The patterns of the source are not empty; for an empty pattern
  this function copies the subject.
\<close>

function replaceFrom :: "jsstring \<Rightarrow> jsstring \<Rightarrow> jsstring \<Rightarrow> jsstring \<Rightarrow> jsstring" where
  "replaceFrom pat rep passed [] = []"
| "replaceFrom pat rep passed (c # cs) =
     (if pat \<noteq> [] \<and> prefix pat (c # cs) then
        getSubstitution pat passed (drop (length pat) (c # cs)) rep
          @ replaceFrom pat rep (passed @ pat) (drop (length pat) (c # cs))
      else c # replaceFrom pat rep (passed @ [c]) cs)"
  by pat_completeness auto
termination
  by (relation "measure (\<lambda>(pat, rep, passed, s). length s)") (auto simp: neq_Nil_conv)

definition replaceAll :: "jsstring \<Rightarrow> jsstring \<Rightarrow> jsstring \<Rightarrow> jsstring" where
  \<comment> \<open>\<open>subject.replace(/pat/g, rep)\<close>\<close>
  "replaceAll pat rep subject = replaceFrom pat rep [] subject"

section \<open>The data of the add-on\<close>

text \<open>
  The bookmark object built by \<open>MCS.keywordResultToBookmark\<close>; the field \<open>id\<close> of the
  source is \<open>bookmarkId\<close> here.
\<close>

record bookmark =
  bookmarkId :: int
  description :: jsstring
  title :: jsstring
  url :: jsstring
  keyword :: jsstring
  iconURL :: jsstring
  postData :: jsstring

text \<open>An \<open>nsIURI\<close> is known by its \<open>spec\<close>.\<close>

datatype nsIURI = URI (spec: jsstring)

record mimeInputStream =
  headers :: "(jsstring \<times> jsstring) list"
  addContentLength :: bool
  streamData :: jsstring

record submission =
  sub_uri :: nsIURI
  sub_postData :: "mimeInputStream option"

section \<open>The submission of a keyword bookmark\<close>

definition encodedText :: "jsstring \<Rightarrow> exn + jsstring" where
  \<comment> \<open>\<open>encodeURIComponent(searchText).replace(/%20/g, "+")\<close>\<close>
  "encodedText searchText =
     (case encodeURIComponent searchText of
        Inl e \<Rightarrow> Inl e
      | Inr r \<Rightarrow> Inr (replaceAll (js ''%20'') (js ''+'') r))"

text \<open>
  \<open>getSubmission\<close> of the engine object made in \<open>MCS.addKeywordBookmarkMenuitem\<close>.
  \<open>Services.io.newURI\<close> is a service of the platform and the parameter \<open>parseURI\<close> here: it
  returns the parsed URI or throws.
\<close>

definition getSubmission ::
  "(jsstring \<Rightarrow> exn + nsIURI) \<Rightarrow> bookmark \<Rightarrow> jsstring \<Rightarrow> exn + submission" where
  "getSubmission parseURI bookmark searchText =
     (case encodedText searchText of
        Inl e \<Rightarrow> Inl e
      | Inr enc \<Rightarrow>
          (case parseURI (replaceAll (js ''%s'') enc (url bookmark)) of
             Inl e \<Rightarrow> Inl e
           | Inr uri \<Rightarrow>
               Inr \<lparr>sub_uri = uri,
                    sub_postData =
                      (if postData bookmark \<noteq> [] then
                         Some \<lparr>headers = [(js ''Content-Type'', js ''application/x-www-form-urlencoded'')],
                               addContentLength = True,
                               streamData = replaceAll (js ''%s'') enc (postData bookmark)\<rparr>
                       else None)\<rparr>))"

text \<open>
  A parser for the examples, in the manner of the platform's: it wants a scheme (a letter,
  then letters, digits, \<open>+\<close>, \<open>-\<close> or \<open>.\<close>, then a colon), and after \<open>//\<close> a host without
  space, \<open>*\<close>, \<open><\<close>, \<open>>\<close>, \<open>|\<close> or a double quote; it keeps the string as the spec.
\<close>

definition isAlpha :: "code_unit \<Rightarrow> bool" where
  "isAlpha c \<longleftrightarrow> (0x41 \<le> c \<and> c \<le> 0x5A) \<or> (0x61 \<le> c \<and> c \<le> 0x7A)"

definition isSchemeChar :: "code_unit \<Rightarrow> bool" where
  "isSchemeChar c \<longleftrightarrow> isAlpha c \<or> (0x30 \<le> c \<and> c \<le> 0x39) \<or> c \<in> {0x2B, 0x2D, 0x2E}"

definition hostAllowed :: "jsstring \<Rightarrow> bool" where
  \<comment> \<open>the argument is what follows the colon of the scheme\<close>
  "hostAllowed s \<longleftrightarrow>
     (case s of
        a # b # r \<Rightarrow>
          a = 0x2F \<and> b = 0x2F \<longrightarrow>
            list_all (\<lambda>c. c \<notin> {0x20, 0x2A, 0x3C, 0x3E, 0x7C, 0x22})
              (takeWhile (\<lambda>c. c \<notin> {0x2F, 0x3F, 0x23}) r)
      | _ \<Rightarrow> True)"

definition parsesAbsolute :: "jsstring \<Rightarrow> bool" where
  "parsesAbsolute s \<longleftrightarrow>
     (case s of [] \<Rightarrow> False
      | c # cs \<Rightarrow>
          isAlpha c \<and>
          (case dropWhile isSchemeChar cs of [] \<Rightarrow> False | d # ds \<Rightarrow> d = 0x3A \<and> hostAllowed ds))"

definition absoluteURI :: "jsstring \<Rightarrow> exn + nsIURI" where
  "absoluteURI s = (if parsesAbsolute s then Inr (URI s) else Inl NS_ERROR_MALFORMED_URI)"

section \<open>The services of the platform\<close>

text \<open>
  A keyword entry as \<open>PlacesUtils.keywords.fetch\<close> resolves it: \<open>kr_href\<close> is
  \<open>keywordResult.url.href\<close>, and \<open>kr_postData\<close> is \<open>null\<close> or a string.
\<close>

record keywordResult =
  kr_keyword :: jsstring
  kr_href :: jsstring
  kr_postData :: "jsstring option"

datatype itemType = TYPE_BOOKMARK | TYPE_FOLDER | TYPE_SEPARATOR | TYPE_DYNAMIC_CONTAINER

record faviconData =
  dataLen :: nat
  data :: "nat list"
  mimeType :: jsstring

text \<open>
  What the add-on reads from the platform, as parameters. A call that can throw, and a
  promise, return a sum: \<open>keywordsFetch\<close> resolves with \<open>None\<close> (\<open>null\<close>) when the URL has no
  keyword; \<open>localeCompare\<close> is negative, zero or positive.
\<close>

record platform =
  getURIsForTag :: "jsstring \<Rightarrow> exn + nsIURI list"
  keywordsFetch :: "jsstring \<Rightarrow> exn + keywordResult option"
  newURI :: "jsstring \<Rightarrow> exn + nsIURI"
  getBookmarkIdsForURI :: "nsIURI \<Rightarrow> int list"
  getItemType :: "int \<Rightarrow> itemType"
  itemHasAnnotation :: "int \<Rightarrow> jsstring \<Rightarrow> bool"
  getItemAnnotation :: "int \<Rightarrow> jsstring \<Rightarrow> jsstring"
  getItemTitle :: "int \<Rightarrow> jsstring"
  promiseFaviconData :: "jsstring \<Rightarrow> exn + faviconData"
  getDefaultFavicon :: jsstring
  localeCompare :: "jsstring \<Rightarrow> jsstring \<Rightarrow> int"

text \<open>
  \<open>Promise.all\<close> of promises that have settled: the values in order, or the first
  rejection (here the leftmost). \<open>Array.prototype.map\<close> with a callback that can throw stops
  at the first throw. \<open>thenE\<close> is \<open>promise.then(f)\<close>: a rejection passes by \<open>f\<close>.
\<close>

fun promiseAll :: "(exn + 'a) list \<Rightarrow> exn + 'a list" where
  "promiseAll [] = Inr []"
| "promiseAll (p # ps) =
     (case p of Inl e \<Rightarrow> Inl e
      | Inr v \<Rightarrow> (case promiseAll ps of Inl e \<Rightarrow> Inl e | Inr vs \<Rightarrow> Inr (v # vs)))"

fun arrayMap :: "('a \<Rightarrow> exn + 'b) \<Rightarrow> 'a list \<Rightarrow> exn + 'b list" where
  "arrayMap f [] = Inr []"
| "arrayMap f (x # xs) =
     (case f x of Inl e \<Rightarrow> Inl e
      | Inr y \<Rightarrow> (case arrayMap f xs of Inl e \<Rightarrow> Inl e | Inr ys \<Rightarrow> Inr (y # ys)))"

definition thenE :: "exn + 'a \<Rightarrow> ('a \<Rightarrow> exn + 'b) \<Rightarrow> exn + 'b" where
  "thenE p f = (case p of Inl e \<Rightarrow> Inl e | Inr v \<Rightarrow> f v)"

text \<open>Base64 of the low octet of each code unit, as \<open>sdk/base64\<close> encodes without a charset.\<close>

definition base64Char :: "nat \<Rightarrow> code_unit" where
  "base64Char n =
     (if n < 26 then of_nat (0x41 + n)
      else if n < 52 then of_nat (0x61 + (n - 26))
      else if n < 62 then of_nat (0x30 + (n - 52))
      else if n = 62 then 0x2B else 0x2F)"

fun base64Octets :: "nat list \<Rightarrow> jsstring" where
  "base64Octets (a # b # c # r) =
     [base64Char (a div 4), base64Char ((a mod 4) * 16 + b div 16),
      base64Char ((b mod 16) * 4 + c div 64), base64Char (c mod 64)] @ base64Octets r"
| "base64Octets [a, b] =
     [base64Char (a div 4), base64Char ((a mod 4) * 16 + b div 16),
      base64Char ((b mod 16) * 4), 0x3D]"
| "base64Octets [a] = [base64Char (a div 4), base64Char ((a mod 4) * 16), 0x3D, 0x3D]"
| "base64Octets [] = []"

definition base64_encode :: "jsstring \<Rightarrow> jsstring" where
  "base64_encode s = base64Octets (map (\<lambda>c. unat c mod 256) s)"

definition fromCharCode :: "nat list \<Rightarrow> jsstring" where
  \<comment> \<open>\<open>String.fromCharCode.apply(null, data)\<close>\<close>
  "fromCharCode ns = map of_nat ns"

section \<open>From the tag to the bookmark objects\<close>

definition getKeywordBookmarksForTag :: "platform \<Rightarrow> jsstring \<Rightarrow> exn + keywordResult option list" where
  "getKeywordBookmarksForTag P tag =
     (case getURIsForTag P tag of
        Inl e \<Rightarrow> Inl e
      | Inr uris \<Rightarrow> promiseAll (map (\<lambda>url. keywordsFetch P url) (map spec uris)))"

text \<open>
  \<open>MCS.keywordResultToBookmark\<close>. Reading \<open>keywordResult.keyword\<close> of \<open>null\<close> throws
  \<open>TypeError\<close>; \<open>decodeURIComponent\<close> and \<open>newURI\<close> can throw; \<open>Inr None\<close> is the \<open>null\<close>
  that the function returns. An empty string, \<open>null\<close>, \<open>undefined\<close> and \<open>0\<close> are falsy.
\<close>

definition decodedPostData :: "keywordResult \<Rightarrow> exn + jsstring" where
  \<comment> \<open>\<open>keywordResult.postData ? decodeURIComponent(keywordResult.postData) : ""\<close>\<close>
  "decodedPostData kr =
     (case kr_postData kr of
        None \<Rightarrow> Inr []
      | Some pd \<Rightarrow> if pd \<noteq> [] then decodeURIComponent pd else Inr [])"

definition keywordResultToBookmark :: "platform \<Rightarrow> keywordResult option \<Rightarrow> exn + bookmark option" where
  "keywordResultToBookmark P keywordResult =
     (case keywordResult of
        None \<Rightarrow> Inl TypeError
      | Some kr \<Rightarrow>
          (case decodedPostData kr of
             Inl e \<Rightarrow> Inl e
           | Inr pdata \<Rightarrow>
               if \<not> (regexTest (js ''%s'') (kr_href kr) \<or> regexTest (js ''%s'') pdata) then Inr None
               else
                 (case newURI P (kr_href kr) of
                    Inl e \<Rightarrow> Inl e
                  | Inr uri \<Rightarrow>
                      (let bookmarkIds = getBookmarkIdsForURI P uri;
                           found = (if length bookmarkIds > 0
                                    then find (\<lambda>i. getItemType P i = TYPE_BOOKMARK) bookmarkIds
                                    else None)
                       in case found of
                            None \<Rightarrow> Inr None
                          | Some i \<Rightarrow>
                              if i = 0 then Inr None
                              else
                                Inr (Some
                                  \<lparr>bookmarkId = i,
                                   description =
                                     (if itemHasAnnotation P i (js ''bookmarkProperties/description'')
                                      then getItemAnnotation P i (js ''bookmarkProperties/description'')
                                      else []),
                                   title = getItemTitle P i,
                                   url = kr_href kr,
                                   keyword = kr_keyword kr,
                                   iconURL = [],
                                   postData = pdata\<rparr>)))))"

definition keywordResultsToBookmarks :: "platform \<Rightarrow> keywordResult option list \<Rightarrow> exn + bookmark list" where
  \<comment> \<open>\<open>keywordResults.map(MCS.keywordResultToBookmark).filter(Boolean)\<close>\<close>
  "keywordResultsToBookmarks P keywordResults =
     (case arrayMap (keywordResultToBookmark P) keywordResults of
        Inl e \<Rightarrow> Inl e
      | Inr rs \<Rightarrow> Inr (map the (filter (\<lambda>r. r \<noteq> None) rs)))"

section \<open>Favicons\<close>

text \<open>
  The value a promise of \<open>MCS.resolveBookmarkFavicon\<close> resolves with is a bookmark object
  or a string.
\<close>

datatype jsval = Obj bookmark | Str jsstring

definition resolveBookmarkFavicon :: "platform \<Rightarrow> bookmark \<Rightarrow> exn + jsval" where
  "resolveBookmarkFavicon P bookmark =
     (case promiseFaviconData P (url bookmark) of
        Inr d \<Rightarrow>
          if dataLen d = 0 then Inr (Str (getDefaultFavicon P))
          else
            Inr (Obj (bookmark\<lparr>iconURL :=
              js ''data:'' @ mimeType d @ js '';base64,'' @ base64_encode (fromCharCode (data d))\<rparr>))
      | Inl e \<Rightarrow> Inr (Obj (bookmark\<lparr>iconURL := getDefaultFavicon P\<rparr>)))"

definition promiseAllBookmarksWithFavicons :: "platform \<Rightarrow> bookmark list \<Rightarrow> exn + jsval list" where
  "promiseAllBookmarksWithFavicons P bookmarks = promiseAll (map (resolveBookmarkFavicon P) bookmarks)"

section \<open>Sorting by title\<close>

text \<open>
  The comparison function \<open>(a, b) => a.title.localeCompare(b.title)\<close>. A string has no
  \<open>title\<close>: for \<open>a\<close> the call on \<open>undefined\<close> throws \<open>TypeError\<close>, for \<open>b\<close> the argument
  \<open>undefined\<close> is compared as the string \<open>undefined\<close>.
\<close>

definition titleOf :: "jsval \<Rightarrow> jsstring option" where
  "titleOf v = (case v of Obj b \<Rightarrow> Some (title b) | Str s \<Rightarrow> None)"

definition compareTitles :: "platform \<Rightarrow> jsval \<Rightarrow> jsval \<Rightarrow> exn + int" where
  "compareTitles P a b =
     (case titleOf a of
        None \<Rightarrow> Inl TypeError
      | Some ta \<Rightarrow>
          Inr (localeCompare P ta (case titleOf b of None \<Rightarrow> js ''undefined'' | Some tb \<Rightarrow> tb)))"

text \<open>
  \<open>Array.prototype.sort\<close> with a comparison function, as a stable insertion sort: an element
  goes before the first one that it does not follow. ECMAScript leaves the order of the
  calls of the comparison function to the engine; for a consistent comparison function
  every stable sort gives this result.
\<close>

fun insertSorted :: "('a \<Rightarrow> 'a \<Rightarrow> exn + int) \<Rightarrow> 'a \<Rightarrow> 'a list \<Rightarrow> exn + 'a list" where
  "insertSorted cmp x [] = Inr [x]"
| "insertSorted cmp x (y # ys) =
     (case cmp x y of
        Inl e \<Rightarrow> Inl e
      | Inr r \<Rightarrow>
          if r \<le> 0 then Inr (x # y # ys)
          else (case insertSorted cmp x ys of Inl e \<Rightarrow> Inl e | Inr zs \<Rightarrow> Inr (y # zs)))"

fun arraySort :: "('a \<Rightarrow> 'a \<Rightarrow> exn + int) \<Rightarrow> 'a list \<Rightarrow> exn + 'a list" where
  "arraySort cmp [] = Inr []"
| "arraySort cmp (x # xs) =
     (case arraySort cmp xs of Inl e \<Rightarrow> Inl e | Inr ys \<Rightarrow> insertSorted cmp x ys)"

definition sortBookmarksByTitle :: "platform \<Rightarrow> jsval list \<Rightarrow> exn + jsval list" where
  "sortBookmarksByTitle P bookmarks = arraySort (compareTitles P) bookmarks"

section \<open>The chain of \<open>MCS.onPopupShown\<close>\<close>

definition keywordBookmarksChain :: "platform \<Rightarrow> jsstring \<Rightarrow> exn + jsval list" where
  "keywordBookmarksChain P tag =
     thenE (thenE (thenE (getKeywordBookmarksForTag P tag)
                         (keywordResultsToBookmarks P))
                  (promiseAllBookmarksWithFavicons P))
           (sortBookmarksByTitle P)"

text \<open>
  The bookmarks that get a menu item: none when the tag of the preference is empty (the
  chain is not started), none when the chain rejects (\<open>catch(logError)\<close>).
\<close>

definition popupKeywordBookmarks :: "platform \<Rightarrow> jsstring \<Rightarrow> jsval list" where
  "popupKeywordBookmarks P searchBookmarkTag =
     (if searchBookmarkTag = [] then []
      else (case keywordBookmarksChain P searchBookmarkTag of Inl e \<Rightarrow> [] | Inr bookmarks \<Rightarrow> bookmarks))"

section \<open>Objects and arrays in a store\<close>

text \<open>
  For what the code does to the objects it is given: a bookmark object and an array are
  references into a store. An element of an array, and the value a promise resolves with,
  is a reference to a bookmark object or a string.
\<close>

type_synonym ref = nat

datatype hval = Ref ref | Prim jsstring

record store =
  objects :: "ref \<Rightarrow> bookmark"
  arrays :: "ref \<Rightarrow> hval list"
  nextRef :: ref

definition deref :: "store \<Rightarrow> hval \<Rightarrow> jsval" where
  "deref S v = (case v of Ref r \<Rightarrow> Obj (objects S r) | Prim s \<Rightarrow> Str s)"

definition assignIconURL :: "ref \<Rightarrow> jsstring \<Rightarrow> store \<Rightarrow> store" where
  \<comment> \<open>\<open>Object.assign(bookmark, { iconURL: icon })\<close>, which returns \<open>bookmark\<close>\<close>
  "assignIconURL r icon S = S\<lparr>objects := (objects S)(r := (objects S r)\<lparr>iconURL := icon\<rparr>)\<rparr>"

definition resolveBookmarkFavicon_st :: "platform \<Rightarrow> ref \<Rightarrow> store \<Rightarrow> hval \<times> store" where
  "resolveBookmarkFavicon_st P bookmark S =
     (case promiseFaviconData P (url (objects S bookmark)) of
        Inr d \<Rightarrow>
          if dataLen d = 0 then (Prim (getDefaultFavicon P), S)
          else
            (Ref bookmark,
             assignIconURL bookmark
               (js ''data:'' @ mimeType d @ js '';base64,'' @ base64_encode (fromCharCode (data d))) S)
      | Inl e \<Rightarrow> (Ref bookmark, assignIconURL bookmark (getDefaultFavicon P) S))"

definition faviconIsEmpty :: "platform \<Rightarrow> jsstring \<Rightarrow> bool" where
  \<comment> \<open>the fetch for the URL resolves with data of length zero\<close>
  "faviconIsEmpty P u = (case promiseFaviconData P u of Inr d \<Rightarrow> dataLen d = 0 | Inl e \<Rightarrow> False)"

text \<open>
  The callbacks of the promises run one after the other, here in the order of the array.
  \<open>Promise.all\<close> resolves with a new array.
\<close>

fun settleAll :: "platform \<Rightarrow> ref list \<Rightarrow> store \<Rightarrow> hval list \<times> store" where
  "settleAll P [] S = ([], S)"
| "settleAll P (r # rs) S =
     (case resolveBookmarkFavicon_st P r S of
        (v, S') \<Rightarrow> (case settleAll P rs S' of (vs, S'') \<Rightarrow> (v # vs, S'')))"

definition promiseAllBookmarksWithFavicons_st ::
  "platform \<Rightarrow> ref list \<Rightarrow> store \<Rightarrow> ref \<times> store" where
  \<comment> \<open>the argument is the content of the array \<open>bookmarks\<close>, which holds bookmark objects;
      the result is the reference of the new array\<close>
  "promiseAllBookmarksWithFavicons_st P bookmarks S =
     (case settleAll P bookmarks S of
        (vs, S') \<Rightarrow>
          (nextRef S', S'\<lparr>arrays := (arrays S')(nextRef S' := vs), nextRef := Suc (nextRef S')\<rparr>))"

definition sortBookmarksByTitle_st :: "platform \<Rightarrow> ref \<Rightarrow> store \<Rightarrow> exn + ref \<times> store" where
  \<comment> \<open>\<open>bookmarks.sort(...)\<close> sorts the array in place and returns it\<close>
  "sortBookmarksByTitle_st P bookmarks S =
     (case arraySort (\<lambda>a b. compareTitles P (deref S a) (deref S b)) (arrays S bookmarks) of
        Inl e \<Rightarrow> Inl e
      | Inr vs \<Rightarrow> Inr (bookmarks, S\<lparr>arrays := (arrays S)(bookmarks := vs)\<rparr>))"

section \<open>The click on a menu item\<close>

text \<open>
  The part of \<open>MCS.onMenuClicked\<close> between the engine and \<open>openLinkIn\<close>, for the engine of a
  keyword bookmark: \<open>Inr None\<close> is a return after a warning, \<open>Inr (Some _)\<close> is the URI and
  the POST data that are opened, \<open>Inl\<close> is an exception that leaves the handler (the call
  of \<open>getSubmission\<close> is not inside a \<open>try\<close>).
\<close>

definition onMenuClicked ::
  "platform \<Rightarrow> bookmark \<Rightarrow> jsstring \<Rightarrow> exn + (jsstring \<times> mimeInputStream option) option" where
  "onMenuClicked P bookmark searchText =
     (if searchText = [] then Inr None
      else
        (case getSubmission (newURI P) bookmark searchText of
           Inl e \<Rightarrow> Inl e
         | Inr submission \<Rightarrow>
             if spec (sub_uri submission) = [] then Inr None
             else Inr (Some (spec (sub_uri submission), sub_postData submission))))"

section \<open>What the specification says about encoding and substitution\<close>

text \<open>
  The code points of a string (UTF-16 decoding); an unpaired surrogate has no code point
  and no percent-encoding.
\<close>

fun codePoints :: "jsstring \<Rightarrow> exn + nat list" where
  "codePoints [] = Inr []"
| "codePoints [c] =
     (if isLeadSurrogate c \<or> isTrailSurrogate c then Inl URIError else Inr [unat c])"
| "codePoints (c # d # ds) =
     (if isLeadSurrogate c then
        (if isTrailSurrogate d then
           (case codePoints ds of Inl e \<Rightarrow> Inl e | Inr r \<Rightarrow> Inr (surrogatePair c d # r))
         else Inl URIError)
      else if isTrailSurrogate c then Inl URIError
      else (case codePoints (d # ds) of Inl e \<Rightarrow> Inl e | Inr r \<Rightarrow> Inr (unat c # r)))"

definition componentEscape :: "nat \<Rightarrow> jsstring" where
  \<comment> \<open>one code point by the rules of a URI component: an unreserved character is itself,
      any other is the percent-escapes of its UTF-8 octets\<close>
  "componentEscape cp =
     (if cp < 0x80 \<and> uriUnescaped (of_nat cp) then [of_nat cp] else pctOctets (utf8 cp))"

definition formEscape :: "nat \<Rightarrow> jsstring" where
  \<comment> \<open>the same, with the space as \<open>+\<close> and not \<open>%20\<close>\<close>
  "formEscape cp = (if cp = 0x20 then [0x2B] else componentEscape cp)"

definition percentEncodeSpacePlus :: "jsstring \<Rightarrow> exn + jsstring" where
  "percentEncodeSpacePlus text =
     (case codePoints text of Inl e \<Rightarrow> Inl e | Inr cps \<Rightarrow> Inr (concat (map formEscape cps)))"

text \<open>
  A template is a list of segments with the marker between each two of them; substituting
  puts the text there instead.
\<close>

fun joinWith :: "'a list \<Rightarrow> 'a list list \<Rightarrow> 'a list" where
  "joinWith sep [] = []"
| "joinWith sep [p] = p"
| "joinWith sep (p # q # ps) = p @ sep @ joinWith sep (q # ps)"

fun segmentsOf :: "jsstring \<Rightarrow> jsstring list" where
  \<comment> \<open>the pieces of a template between its markers \<open>%s\<close>, from the left\<close>
  "segmentsOf [] = [[]]"
| "segmentsOf [c] = [[c]]"
| "segmentsOf (c # d # s) =
     (if c = 0x25 \<and> d = 0x73 then [] # segmentsOf s
      else (case segmentsOf (d # s) of [] \<Rightarrow> [[c]] | p # ps \<Rightarrow> (c # p) # ps))"

section \<open>A comparison function and a repository for the examples\<close>

text \<open>
  A comparison function is consistent (ECMA-262) when it orders the strings: equal to
  itself, antisymmetric in sign, transitive.
\<close>

definition consistentComparison :: "(jsstring \<Rightarrow> jsstring \<Rightarrow> int) \<Rightarrow> bool" where
  "consistentComparison lc \<longleftrightarrow>
     (\<forall>a. lc a a = 0) \<and>
     (\<forall>a b. lc a b < 0 \<longleftrightarrow> 0 < lc b a) \<and>
     (\<forall>a b c. lc a b \<le> 0 \<longrightarrow> lc b c \<le> 0 \<longrightarrow> lc a c \<le> 0)"

text \<open>
  A collation in the manner of the root locale on ASCII letters: the letters are compared
  without their case first, and on a tie the lower case comes before the upper case.
\<close>

definition isUpper :: "code_unit \<Rightarrow> bool" where
  "isUpper c \<longleftrightarrow> 0x41 \<le> c \<and> c \<le> 0x5A"

definition collationKey :: "jsstring \<Rightarrow> nat list \<times> nat list" where
  "collationKey s =
     (map (\<lambda>c. if isUpper c then unat c + 0x20 else unat c) s,
      map (\<lambda>c. if isUpper c then 1 else 0) s)"

definition rootCompare :: "jsstring \<Rightarrow> jsstring \<Rightarrow> int" where
  "rootCompare a b =
     (if collationKey a < collationKey b then - 1
      else if collationKey a = collationKey b then 0 else 1)"

text \<open>
  A repository: the tag \<open>search\<close> has three URLs. The first has the keyword \<open>x\<close> and is
  bookmarked twice (items 7 and 3, in the order of the repository); the second has a keyword
  with POST data and is the URL of a folder item (12) and of a bookmark (5); the third has
  a keyword and one bookmark (9). The titles are \<open>B\<close>, \<open>a\<close> and \<open>C\<close>. The favicon of the
  first is three octets, the fetch of the second fails, the third is one octet.
\<close>

definition exampleFetch :: "jsstring \<Rightarrow> exn + keywordResult option" where
  "exampleFetch u =
     (if u = js ''https://x.com/s?q=%s'' then
        Inr (Some \<lparr>kr_keyword = js ''x'', kr_href = js ''https://x.com/s?q=%s'', kr_postData = None\<rparr>)
      else if u = js ''https://a.example/find'' then
        Inr (Some \<lparr>kr_keyword = js ''a'', kr_href = js ''https://a.example/find'',
                   kr_postData = Some (js ''q%3D%25s'')\<rparr>)
      else if u = js ''https://c.example/?%s'' then
        Inr (Some \<lparr>kr_keyword = js ''c'', kr_href = js ''https://c.example/?%s'', kr_postData = None\<rparr>)
      else Inr None)"

definition exampleFavicon :: "jsstring \<Rightarrow> exn + faviconData" where
  "exampleFavicon u =
     (if u = js ''https://x.com/s?q=%s'' then
        Inr \<lparr>dataLen = 3, data = [0x4D, 0x61, 0x6E], mimeType = js ''image/png''\<rparr>
      else if u = js ''https://a.example/find'' then Inl RepositoryError
      else Inr \<lparr>dataLen = 1, data = [0x4D], mimeType = js ''image/x-icon''\<rparr>)"

definition examplePlatform :: platform where
  "examplePlatform =
     \<lparr>getURIsForTag =
        (\<lambda>tag. if tag = js ''search''
               then Inr [URI (js ''https://x.com/s?q=%s''), URI (js ''https://a.example/find''),
                         URI (js ''https://c.example/?%s'')]
               else Inr []),
      keywordsFetch = exampleFetch,
      newURI = absoluteURI,
      getBookmarkIdsForURI =
        (\<lambda>u. if spec u = js ''https://x.com/s?q=%s'' then [7, 3]
             else if spec u = js ''https://a.example/find'' then [12, 5]
             else if spec u = js ''https://c.example/?%s'' then [9]
             else []),
      getItemType = (\<lambda>i. if i = 12 then TYPE_FOLDER else TYPE_BOOKMARK),
      itemHasAnnotation = (\<lambda>i n. i = 5 \<and> n = js ''bookmarkProperties/description''),
      getItemAnnotation = (\<lambda>i n. js ''find it''),
      getItemTitle = (\<lambda>i. if i = 5 then js ''a'' else if i = 9 then js ''C'' else js ''B''),
      promiseFaviconData = exampleFavicon,
      getDefaultFavicon = js ''chrome://mozapps/skin/places/defaultFavicon.png'',
      localeCompare = rootCompare\<rparr>"

text \<open>
  A store: the object 0 is the bookmark of the first URL of the repository, every other
  object the bookmark of the second; the array 20 holds the objects 0 and 1.
\<close>

definition exampleStore :: store where
  "exampleStore =
     \<lparr>objects =
        (\<lambda>q. if q = 0
             then \<lparr>bookmarkId = 7, description = [], title = js ''B'',
                   url = js ''https://x.com/s?q=%s'', keyword = js ''x'', iconURL = [],
                   postData = []\<rparr>
             else \<lparr>bookmarkId = 5, description = js ''find it'', title = js ''a'',
                   url = js ''https://a.example/find'', keyword = js ''a'', iconURL = [],
                   postData = js ''q=%s''\<rparr>),
      arrays = (\<lambda>c. if c = 20 then [Ref 0, Ref 1] else []),
      nextRef = 21\<rparr>"

section \<open>Properties of encoding and substitution\<close>

text \<open>
  A replacement without a dollar sign is put in as it is, and what was passed of the
  subject plays no part; a replacement with one is not, which is why the statements below
  are about the encoded text, where the dollar sign is escaped.
\<close>

lemma dollar_pattern_expands_example:
  "replaceAll (js ''%s'') (js ''[$&]'') (js ''q=%s'') = js ''q=[%s]''"
  by (simp add: replaceAll_def js_def)

lemma getSubstitution_no_dollar:
  "0x24 \<notin> set rep \<Longrightarrow> getSubstitution m p r rep = rep"
  by (induction m p r rep rule: getSubstitution.induct) auto

lemma replaceFrom_passed:
  assumes "0x24 \<notin> set rep"
  shows "replaceFrom pat rep p1 s = replaceFrom pat rep p2 s"
proof (induction "length s" arbitrary: s p1 p2 rule: less_induct)
  case less
  show ?case
  proof (cases s)
    case Nil
    then show ?thesis by simp
  next
    case (Cons c cs)
    show ?thesis
    proof (cases "pat \<noteq> [] \<and> prefix pat (c # cs)")
      case True
      then have "length (drop (length pat) (c # cs)) < length s"
        using Cons by (cases pat) auto
      then have "replaceFrom pat rep (p1 @ pat) (drop (length pat) (c # cs))
          = replaceFrom pat rep (p2 @ pat) (drop (length pat) (c # cs))"
        by (rule less)
      then show ?thesis
        using True Cons assms by (simp add: getSubstitution_no_dollar)
    next
      case False
      have "replaceFrom pat rep (p1 @ [c]) cs = replaceFrom pat rep (p2 @ [c]) cs"
        by (rule less) (simp add: Cons)
      then show ?thesis
        using False Cons by auto
    qed
  qed
qed

lemma replaceAll_Nil: "replaceAll pat rep [] = []"
  by (simp add: replaceAll_def)

lemma replaceAll_Cons:
  assumes "0x24 \<notin> set rep"
  shows "replaceAll pat rep (c # cs) =
     (if pat \<noteq> [] \<and> prefix pat (c # cs)
      then rep @ replaceAll pat rep (drop (length pat) (c # cs))
      else c # replaceAll pat rep cs)"
proof -
  have a: "replaceFrom pat rep ([] @ pat) t = replaceFrom pat rep [] t" for t
    by (rule replaceFrom_passed [OF assms])
  have b: "replaceFrom pat rep ([] @ [c]) t = replaceFrom pat rep [] t" for t
    by (rule replaceFrom_passed [OF assms])
  show ?thesis
    unfolding replaceAll_def replaceFrom.simps(2) [of pat rep "[]" c cs] a b
    by (simp add: getSubstitution_no_dollar [OF assms])
qed

lemma uriUnescaped_ascii:
  assumes "uriUnescaped c"
  shows "unat c < 0x80" "\<not> isLeadSurrogate c" "\<not> isTrailSurrogate c"
  using assms
  by (auto simp: uriUnescaped_def isLeadSurrogate_def isTrailSurrogate_def word_le_nat_alt)

lemma surrogatePair_bounds:
  assumes "isLeadSurrogate c" "isTrailSurrogate d"
  shows "0x10000 \<le> surrogatePair c d" "surrogatePair c d < 0x110000"
  using assms
  by (auto simp: surrogatePair_def isLeadSurrogate_def isTrailSurrogate_def word_le_nat_alt)

lemma componentEscape_unit:
  "componentEscape (unat c) = (if uriUnescaped c then [c] else pctOctets (utf8 (unat c)))"
  using uriUnescaped_ascii(1) [of c] by (auto simp: componentEscape_def)

lemma componentEscape_pair:
  "isLeadSurrogate c \<Longrightarrow> isTrailSurrogate d \<Longrightarrow>
   componentEscape (surrogatePair c d) = pctOctets (utf8 (surrogatePair c d))"
  using surrogatePair_bounds(1) [of c d] by (simp add: componentEscape_def)

lemma encodeURIComponent_codePoints:
  "encodeURIComponent text =
     (case codePoints text of Inl e \<Rightarrow> Inl e
      | Inr cps \<Rightarrow> Inr (concat (map componentEscape cps)))"
proof (induction "text" rule: encodeURIComponent.induct)
  case 1
  show ?case by simp
next
  case (2 c)
  show ?case
    using uriUnescaped_ascii [of c] by (simp add: componentEscape_unit)
next
  case (3 c d ds)
  show ?case
  proof (cases "uriUnescaped c")
    case True
    with 3(1) uriUnescaped_ascii [of c] show ?thesis
      by (simp add: componentEscape_unit split: sum.splits)
  next
    case False
    with 3(2,3) show ?thesis
      by (simp add: componentEscape_unit componentEscape_pair split: sum.splits)
  qed
qed

lemma codePoints_bound:
  "codePoints text = Inr cps \<Longrightarrow> cp \<in> set cps \<Longrightarrow> cp < 0x110000"
proof (induction "text" arbitrary: cps rule: codePoints.induct)
  case 1
  then show ?case by simp
next
  case (2 c)
  have "unat c < 2 ^ 16" using unsigned_less [of c] by simp
  with 2 show ?case by (auto split: if_splits)
next
  case (3 c d ds)
  have u: "unat c < 2 ^ 16" using unsigned_less [of c] by simp
  show ?case
  proof (cases "isLeadSurrogate c")
    case True
    with 3(1) 3(3,4) surrogatePair_bounds(2) [of c d] show ?thesis
      by (auto split: if_splits sum.splits)
  next
    case False
    with 3(2) 3(3,4) u show ?thesis
      by (auto split: if_splits sum.splits)
  qed
qed

lemma nibble_cases:
  assumes "d < (16::nat)"
  shows "d \<in> {0, 1, 2, 3, 4, 5, 6, 7, 8, 9, 10, 11, 12, 13, 14, 15}"
  using assms by simp arith

lemma hexDigit_facts:
  assumes "d < 16"
  shows "hexDigit d \<noteq> 0x25" "hexDigit d \<noteq> 0x24"
    "hexDigit d = 0x32 \<longleftrightarrow> d = 2" "hexDigit d = 0x30 \<longleftrightarrow> d = 0"
  using nibble_cases [OF assms] by (auto simp: hexDigit_def)

lemma no_dollar_plus: "0x24 \<notin> set (js ''+'')"
  by (simp add: js_def)

lemma replace_unit:
  "c \<noteq> 0x25 \<Longrightarrow>
   replaceAll (js ''%20'') (js ''+'') (c # s) = c # replaceAll (js ''%20'') (js ''+'') s"
  by (simp add: replaceAll_Cons [OF no_dollar_plus]) (simp add: js_def)

lemma replace_pctOctet:
  assumes "b < 256" "b \<noteq> 0x20"
  shows "replaceAll (js ''%20'') (js ''+'') (pctOctet b @ s)
       = pctOctet b @ replaceAll (js ''%20'') (js ''+'') s"
proof -
  let ?h = "hexDigit (b div 16)" and ?l = "hexDigit (b mod 16)"
  have hi: "b div 16 < 16" and lo: "b mod 16 < 16" using assms by auto
  have ne: "\<not> (?h = 0x32 \<and> ?l = 0x30)"
    using assms hexDigit_facts(3) [OF hi] hexDigit_facts(4) [OF lo] by auto
  have "replaceAll (js ''%20'') (js ''+'') (0x25 # ?h # ?l # s)
      = 0x25 # replaceAll (js ''%20'') (js ''+'') (?h # ?l # s)"
    using ne by (simp add: replaceAll_Cons [OF no_dollar_plus]) (simp add: js_def)
  also have "\<dots> = 0x25 # ?h # ?l # replaceAll (js ''%20'') (js ''+'') s"
    using hexDigit_facts(1) [OF hi] hexDigit_facts(1) [OF lo] by (simp add: replace_unit)
  finally show ?thesis by (simp add: pctOctet_def)
qed

lemma replace_pct20:
  "replaceAll (js ''%20'') (js ''+'') (pctOctet 0x20 @ s)
     = js ''+'' @ replaceAll (js ''%20'') (js ''+'') s"
  by (simp add: pctOctet_def hexDigit_def replaceAll_Cons [OF no_dollar_plus]) (simp add: js_def)

lemma replace_pctOctets:
  assumes "\<forall>b\<in>set bs. b < 256 \<and> b \<noteq> 0x20"
  shows "replaceAll (js ''%20'') (js ''+'') (pctOctets bs @ s)
       = pctOctets bs @ replaceAll (js ''%20'') (js ''+'') s"
  using assms by (induction bs) (simp_all add: pctOctets_def replace_pctOctet)

lemma utf8_octets:
  assumes "cp < 0x110000" "cp \<noteq> 0x20" "b \<in> set (utf8 cp)"
  shows "b < 256 \<and> b \<noteq> 0x20"
  using assms by (auto simp: utf8_def split: if_splits)

lemma replace_componentEscape:
  assumes "cp < 0x110000"
  shows "replaceAll (js ''%20'') (js ''+'') (componentEscape cp @ s)
       = formEscape cp @ replaceAll (js ''%20'') (js ''+'') s"
proof (cases "cp = 0x20")
  case True
  have "componentEscape 0x20 = pctOctet 0x20"
    by (simp add: componentEscape_def uriUnescaped_def utf8_def pctOctets_def)
  with True show ?thesis
    using replace_pct20 [of s] by (simp add: formEscape_def js_def)
next
  case False
  show ?thesis
  proof (cases "cp < 0x80 \<and> uriUnescaped (of_nat cp)")
    case True
    then have "(of_nat cp :: code_unit) \<noteq> 0x25"
      by (auto simp: uriUnescaped_def)
    with True False show ?thesis
      by (simp add: componentEscape_def formEscape_def replace_unit)
  next
    case no: False
    have "\<forall>b\<in>set (utf8 cp). b < 256 \<and> b \<noteq> 0x20"
      using utf8_octets [OF assms False] by blast
    from no have "componentEscape cp = pctOctets (utf8 cp)"
      by (simp only: componentEscape_def if_False)
    with replace_pctOctets [OF \<open>\<forall>b\<in>set (utf8 cp). b < 256 \<and> b \<noteq> 0x20\<close>] False show ?thesis
      by (simp add: formEscape_def)
  qed
qed

lemma replace_escapes:
  assumes "\<forall>cp\<in>set cps. cp < 0x110000"
  shows "replaceAll (js ''%20'') (js ''+'') (concat (map componentEscape cps))
       = concat (map formEscape cps)"
  using assms
proof (induction cps)
  case Nil
  show ?case by (simp add: replaceAll_Nil)
next
  case (Cons cp cps)
  then show ?case by (simp add: replace_componentEscape)
qed

lemma encodedText_refines:
  "encodedText t = percentEncodeSpacePlus t"
proof (cases "codePoints t")
  case (Inl e)
  then show ?thesis
    by (simp add: encodedText_def percentEncodeSpacePlus_def encodeURIComponent_codePoints)
next
  case (Inr cps)
  then have "\<forall>cp\<in>set cps. cp < 0x110000"
    using codePoints_bound by blast
  from replace_escapes [OF this] Inr show ?thesis
    by (simp add: encodedText_def percentEncodeSpacePlus_def encodeURIComponent_codePoints)
qed

lemma marker_prefix:
  "prefix (js ''%s'') u \<longleftrightarrow> (\<exists>v. u = 0x25 # 0x73 # v)"
  by (auto simp: js_def prefix_def)

lemma replace_marker_free:
  assumes nd: "0x24 \<notin> set rep" and free: "\<not> regexTest (js ''%s'') seg"
  shows "replaceAll (js ''%s'') rep (seg @ js ''%s'' @ s)
       = seg @ rep @ replaceAll (js ''%s'') rep s"
    and "replaceAll (js ''%s'') rep seg = seg"
  using free
proof (induction seg)
  case Nil
  {
    case 1
    show ?case
      by (simp add: replaceAll_Cons [OF nd] js_def)
  next
    case 2
    show ?case by (simp add: replaceAll_Nil)
  }
next
  case (Cons c cs)
  {
    case 1
    then have a: "\<not> prefix (js ''%s'') (c # cs)" and b: "\<not> regexTest (js ''%s'') cs"
      by simp_all
    from a have "\<not> prefix (js ''%s'') (c # cs @ js ''%s'' @ s)"
      by (cases cs) (auto simp: marker_prefix js_def)
    then show ?case
      using Cons.IH(1) [OF b] by (simp add: replaceAll_Cons [OF nd])
  next
    case 2
    then have a: "\<not> prefix (js ''%s'') (c # cs)" and b: "\<not> regexTest (js ''%s'') cs"
      by simp_all
    then show ?case
      using Cons.IH(2) [OF b] by (simp add: replaceAll_Cons [OF nd])
  }
qed

lemma replace_joinWith:
  assumes nd: "0x24 \<notin> set rep"
  shows "\<forall>seg\<in>set segs. \<not> regexTest (js ''%s'') seg \<Longrightarrow>
     replaceAll (js ''%s'') rep (joinWith (js ''%s'') segs) = joinWith rep segs"
proof (induction "js ''%s''" segs rule: joinWith.induct)
  case 1
  show ?case by (simp add: replaceAll_Nil)
next
  case (2 p)
  then show ?case by (simp add: replace_marker_free(2) [OF nd])
next
  case (3 p q ps)
  then show ?case by (simp add: replace_marker_free(1) [OF nd])
qed

lemma hexDigit_no_dollar: "d < 16 \<Longrightarrow> hexDigit d \<noteq> 0x24"
  by (rule hexDigit_facts(2))

lemma pctOctets_no_dollar:
  "\<forall>b\<in>set bs. b < 256 \<Longrightarrow> 0x24 \<notin> set (pctOctets bs)"
proof (induction bs)
  case Nil
  show ?case by (simp add: pctOctets_def)
next
  case (Cons b bs)
  then have "b div 16 < 16" "b mod 16 < 16" by auto
  then have "hexDigit (b div 16) \<noteq> 0x24" "hexDigit (b mod 16) \<noteq> 0x24"
    by (simp_all add: hexDigit_no_dollar)
  with Cons show ?case by (simp add: pctOctets_def pctOctet_def)
qed

lemma utf8_bytes: "cp < 0x110000 \<Longrightarrow> b \<in> set (utf8 cp) \<Longrightarrow> b < 256"
  by (auto simp: utf8_def split: if_splits)

lemma formEscape_no_dollar:
  assumes "cp < 0x110000"
  shows "0x24 \<notin> set (formEscape cp)"
proof -
  have "0x24 \<notin> set (pctOctets (utf8 cp))"
    using utf8_bytes [OF assms] by (intro pctOctets_no_dollar) blast
  then show ?thesis
    by (auto simp: formEscape_def componentEscape_def uriUnescaped_def)
qed

lemma encodedText_no_dollar:
  assumes "encodedText t = Inr escaped"
  shows "0x24 \<notin> set escaped"
proof -
  from assms obtain cps where cps: "codePoints t = Inr cps"
    and e: "escaped = concat (map formEscape cps)"
    by (auto simp: encodedText_refines percentEncodeSpacePlus_def split: sum.splits)
  have "\<forall>cp\<in>set cps. 0x24 \<notin> set (formEscape cp)"
    using codePoints_bound [OF cps] formEscape_no_dollar by blast
  then show ?thesis by (simp add: e)
qed

lemma segmentsOf_nonempty: "segmentsOf t \<noteq> []"
  by (induction t rule: segmentsOf.induct) (auto split: list.splits)

lemma joinWith_segmentsOf: "joinWith (js ''%s'') (segmentsOf t) = t"
proof (induction t rule: segmentsOf.induct)
  case 1
  show ?case by simp
next
  case (2 c)
  show ?case by simp
next
  case (3 c d s)
  show ?case
  proof (cases "c = 0x25 \<and> d = 0x73")
    case True
    with 3(1) show ?thesis
      using segmentsOf_nonempty [of s]
      by (cases "segmentsOf s") (simp_all add: js_def)
  next
    case False
    obtain p ps where s: "segmentsOf (d # s) = p # ps"
      using segmentsOf_nonempty [of "d # s"] by (cases "segmentsOf (d # s)") auto
    have "joinWith (js ''%s'') ((c # p) # ps) = c # joinWith (js ''%s'') (p # ps)"
      by (cases ps) simp_all
    with 3(2) False s show ?thesis by auto
  qed
qed

lemma segmentsOf_first_prefix: "segmentsOf t = p # ps \<Longrightarrow> prefix p t"
proof (induction t arbitrary: p ps rule: segmentsOf.induct)
  case 1
  then show ?case by simp
next
  case (2 c)
  then show ?case by simp
next
  case (3 c d s)
  show ?case
  proof (cases "c = 0x25 \<and> d = 0x73")
    case True
    with 3(3) show ?thesis by auto
  next
    case False
    obtain q qs where s: "segmentsOf (d # s) = q # qs"
      using segmentsOf_nonempty [of "d # s"] by (cases "segmentsOf (d # s)") auto
    from 3(2) [OF False s] have "prefix q (d # s)" .
    with 3(3) False s show ?thesis by auto
  qed
qed

lemma segmentsOf_marker_free:
  "seg \<in> set (segmentsOf t) \<Longrightarrow> \<not> regexTest (js ''%s'') seg"
proof (induction t arbitrary: seg rule: segmentsOf.induct)
  case 1
  then show ?case by (simp add: js_def)
next
  case (2 c)
  then show ?case by (simp add: js_def)
next
  case (3 c d s)
  show ?case
  proof (cases "c = 0x25 \<and> d = 0x73")
    case True
    with 3(1) 3(3) show ?thesis by (auto simp: js_def)
  next
    case False
    obtain q qs where s: "segmentsOf (d # s) = q # qs"
      using segmentsOf_nonempty [of "d # s"] by (cases "segmentsOf (d # s)") auto
    have pq: "prefix q (d # s)" using segmentsOf_first_prefix [OF s] .
    have free: "\<not> regexTest (js ''%s'') x" if "x \<in> set (q # qs)" for x
      using 3(2) [OF False] that s by simp
    have "\<not> prefix (js ''%s'') (c # q)"
    proof
      assume "prefix (js ''%s'') (c # q)"
      then obtain v where "c = 0x25" "q = 0x73 # v" by (auto simp: marker_prefix)
      with pq have "c = 0x25 \<and> d = 0x73" by auto
      with False show False by simp
    qed
    moreover have "\<not> regexTest (js ''%s'') q" using free by simp
    ultimately have "\<not> regexTest (js ''%s'') (c # q)" by simp
    with 3(3) False s free show ?thesis by auto
  qed
qed

lemmas encode_eval =
  js_def uriUnescaped_def isLeadSurrogate_def isTrailSurrogate_def utf8_def pctOctets_def
  pctOctet_def hexDigit_def surrogatePair_def encodedText_def replaceAll_def

lemmas uri_eval = absoluteURI_def parsesAbsolute_def hostAllowed_def isAlpha_def isSchemeChar_def

text \<open>
  C7. For every text, the text that \<open>getSubmission\<close> substitutes,
  \<open>encodeURIComponent(searchText).replace(/%20/g, "+")\<close>, is the percent-encoding of the
  text by the rules of a URI component with every space written \<open>+\<close> and not \<open>%20\<close>: the
  replacement touches the escape of a space and nothing else. A text with an unpaired
  surrogate has no percent-encoding, and the code throws \<open>URIError\<close> there. In particular
  a space gives \<open>+\<close>, \<open>a b\<close> gives \<open>a+b\<close> and \<open>a&b\<close> gives \<open>a%26b\<close>.
\<close>

theorem encodedText_percent_encoding_space_plus:
  "encodedText t = percentEncodeSpacePlus t
   \<and> encodedText (js '' '') = Inr (js ''+'')
   \<and> encodedText (js ''a b'') = Inr (js ''a+b'')
   \<and> encodedText (js ''a&b'') = Inr (js ''a%26b'')"
proof -
  have "encodedText (js '' '') = Inr (js ''+'')" by (simp add: encode_eval)
  moreover have "encodedText (js ''a b'') = Inr (js ''a+b'')" by (simp add: encode_eval)
  moreover have "encodedText (js ''a&b'') = Inr (js ''a%26b'')" by (simp add: encode_eval)
  ultimately show ?thesis using encodedText_refines [of t] by simp
qed

theorem encodedText_percent_encoding_space_plus_witness:
  "encodedText (js ''50% of a+b'') = Inr (js ''50%25+of+a%2Bb'')
   \<and> percentEncodeSpacePlus (js ''50% of a+b'') = Inr (js ''50%25+of+a%2Bb'')"
proof -
  have "percentEncodeSpacePlus (js ''50% of a+b'') = Inr (js ''50%25+of+a%2Bb'')"
    by (simp add: percentEncodeSpacePlus_def formEscape_def componentEscape_def encode_eval)
  then show ?thesis
    using encodedText_percent_encoding_space_plus [of "js ''50% of a+b''"] by simp
qed

lemma every_template_has_segments:
  "joinWith (js ''%s'') (segmentsOf t) = t
   \<and> (\<forall>seg\<in>set (segmentsOf t). \<not> regexTest (js ''%s'') seg)"
  using joinWith_segmentsOf segmentsOf_marker_free by blast

text \<open>
  C8. Write a template as its segments with the marker \<open>%s\<close> between each two of them,
  no segment holding the marker (every template is written so, by
  \<open>every_template_has_segments\<close>). For every text that encodes, \<open>getSubmission\<close> passes
  to the URI parser the same segments with the encoded text between them, every other
  character unchanged, and does the same, independently, to the POST data when there is
  some. So the bookmark with URL \<open>https://x.com/s?q=%s\<close> and the text \<open>hello world\<close> give
  the URI \<open>https://x.com/s?q=hello+world\<close>.
\<close>

theorem getSubmission_substitutes_every_marker:
  assumes enc: "encodedText searchText = Inr escaped"
    and urlFree: "\<forall>seg\<in>set urlSegs. \<not> regexTest (js ''%s'') seg"
    and bodyFree: "\<forall>seg\<in>set bodySegs. \<not> regexTest (js ''%s'') seg"
    and urlT: "url bookmark = joinWith (js ''%s'') urlSegs"
    and bodyT: "postData bookmark = joinWith (js ''%s'') bodySegs"
  shows "replaceAll (js ''%s'') escaped (url bookmark) = joinWith escaped urlSegs
   \<and> replaceAll (js ''%s'') escaped (postData bookmark) = joinWith escaped bodySegs
   \<and> getSubmission parseURI bookmark searchText =
       (case parseURI (joinWith escaped urlSegs) of
          Inl e \<Rightarrow> Inl e
        | Inr u \<Rightarrow>
            Inr \<lparr>sub_uri = u,
                 sub_postData =
                   (if postData bookmark \<noteq> [] then
                      Some \<lparr>headers = [(js ''Content-Type'', js ''application/x-www-form-urlencoded'')],
                            addContentLength = True,
                            streamData = joinWith escaped bodySegs\<rparr>
                    else None)\<rparr>)
   \<and> getSubmission absoluteURI (b\<lparr>url := js ''https://x.com/s?q=%s'', postData := []\<rparr>)
         (js ''hello world'')
       = Inr \<lparr>sub_uri = URI (js ''https://x.com/s?q=hello+world''), sub_postData = None\<rparr>"
proof -
  have nd: "0x24 \<notin> set escaped" using encodedText_no_dollar [OF enc] .
  have u: "replaceAll (js ''%s'') escaped (url bookmark) = joinWith escaped urlSegs"
    unfolding urlT using urlFree by (rule replace_joinWith [OF nd])
  have p: "replaceAll (js ''%s'') escaped (postData bookmark) = joinWith escaped bodySegs"
    unfolding bodyT using bodyFree by (rule replace_joinWith [OF nd])
  have g: "getSubmission parseURI bookmark searchText =
       (case parseURI (joinWith escaped urlSegs) of
          Inl e \<Rightarrow> Inl e
        | Inr u \<Rightarrow>
            Inr \<lparr>sub_uri = u,
                 sub_postData =
                   (if postData bookmark \<noteq> [] then
                      Some \<lparr>headers = [(js ''Content-Type'', js ''application/x-www-form-urlencoded'')],
                            addContentLength = True,
                            streamData = joinWith escaped bodySegs\<rparr>
                    else None)\<rparr>)"
    unfolding getSubmission_def enc sum.case u p by (rule refl)
  have e: "encodedText (js ''hello world'') = Inr (js ''hello+world'')"
    by (simp add: encode_eval)
  have x: "getSubmission absoluteURI (b\<lparr>url := js ''https://x.com/s?q=%s'', postData := []\<rparr>)
         (js ''hello world'')
       = Inr \<lparr>sub_uri = URI (js ''https://x.com/s?q=hello+world''), sub_postData = None\<rparr>"
    unfolding getSubmission_def e by (simp add: uri_eval js_def replaceAll_def)
  from u p g x show ?thesis by blast
qed

theorem getSubmission_substitutes_every_marker_witness:
  "getSubmission absoluteURI
     \<lparr>bookmarkId = 7, description = [], title = js ''X'', url = js ''https://x.com/%s/s?q=%s'',
      keyword = js ''x'', iconURL = [], postData = js ''q=%s&again=%s''\<rparr>
     (js ''a b'')
   = Inr \<lparr>sub_uri = URI (js ''https://x.com/a+b/s?q=a+b''),
          sub_postData =
            Some \<lparr>headers = [(js ''Content-Type'', js ''application/x-www-form-urlencoded'')],
                  addContentLength = True,
                  streamData = js ''q=a+b&again=a+b''\<rparr>\<rparr>"
proof -
  let ?b = "\<lparr>bookmarkId = 7, description = [], title = js ''X'',
      url = js ''https://x.com/%s/s?q=%s'',
      keyword = js ''x'', iconURL = [], postData = js ''q=%s&again=%s''\<rparr>"
  let ?us = "[js ''https://x.com/'', js ''/s?q='', []]"
  let ?bs = "[js ''q='', js ''&again='', []]"
  have enc: "encodedText (js ''a b'') = Inr (js ''a+b'')" by (simp add: encode_eval)
  have uf: "\<forall>seg\<in>set ?us. \<not> regexTest (js ''%s'') seg" by (simp add: js_def)
  have bf: "\<forall>seg\<in>set ?bs. \<not> regexTest (js ''%s'') seg" by (simp add: js_def)
  have ut: "url ?b = joinWith (js ''%s'') ?us" by (simp add: js_def)
  have bt: "postData ?b = joinWith (js ''%s'') ?bs" by (simp add: js_def)
  show ?thesis
    using getSubmission_substitutes_every_marker [OF enc uf bf ut bt, of absoluteURI]
    by (simp add: uri_eval js_def)
qed

section \<open>Properties of the chain from the tag to the menu\<close>

lemma promiseAll_map_Inr: "promiseAll (map Inr vs) = Inr vs"
  by (induction vs) simp_all

lemma promiseAll_InrD: "promiseAll ps = Inr vs \<Longrightarrow> ps = map Inr vs"
  by (induction ps arbitrary: vs) (auto split: sum.splits)

lemma arrayMap_InrD: "arrayMap f xs = Inr ys \<Longrightarrow> list_all2 (\<lambda>x y. f x = Inr y) xs ys"
  by (induction xs arbitrary: ys) (auto split: sum.splits)

lemma arrayMap_InrI: "list_all2 (\<lambda>x y. f x = Inr y) xs ys \<Longrightarrow> arrayMap f xs = Inr ys"
  by (induction xs ys rule: list_all2_induct) simp_all

lemma keywordResultToBookmark_Some:
  assumes "keywordResultToBookmark P r = Inr (Some b)"
  shows "\<exists>kr uri. r = Some kr \<and> url b = kr_href kr \<and> keyword b = kr_keyword kr \<and> iconURL b = []
     \<and> decodedPostData kr = Inr (postData b)
     \<and> (regexTest (js ''%s'') (kr_href kr) \<or> regexTest (js ''%s'') (postData b))
     \<and> newURI P (kr_href kr) = Inr uri
     \<and> find (\<lambda>i. getItemType P i = TYPE_BOOKMARK) (getBookmarkIdsForURI P uri) = Some (bookmarkId b)
     \<and> bookmarkId b \<noteq> 0
     \<and> title b = getItemTitle P (bookmarkId b)"
  using assms
  by (auto simp: keywordResultToBookmark_def Let_def split: option.splits sum.splits if_splits)

lemma keywordResultToBookmark_no_marker:
  assumes "decodedPostData kr = Inr d"
    and "\<not> regexTest (js ''%s'') (kr_href kr)" and "\<not> regexTest (js ''%s'') d"
  shows "keywordResultToBookmark P (Some kr) = Inr None"
  using assms by (simp add: keywordResultToBookmark_def)

lemma keywordResultsToBookmarks_source:
  assumes "keywordResultsToBookmarks P rs = Inr bs" and "b \<in> set bs"
  shows "\<exists>r\<in>set rs. keywordResultToBookmark P r = Inr (Some b)"
proof -
  from assms(1) obtain os where m: "arrayMap (keywordResultToBookmark P) rs = Inr os"
    and bs: "bs = map the (filter (\<lambda>r. r \<noteq> None) os)"
    by (auto simp: keywordResultsToBookmarks_def split: sum.splits)
  from assms(2) bs have "Some b \<in> set os" by auto
  moreover have "list_all2 (\<lambda>x y. keywordResultToBookmark P x = Inr y) rs os"
    using arrayMap_InrD [OF m] .
  ultimately obtain i where "i < length os" "os ! i = Some b" "length rs = length os"
    "keywordResultToBookmark P (rs ! i) = Inr (os ! i)"
    by (auto simp: list_all2_conv_all_nth in_set_conv_nth)
  then have "rs ! i \<in> set rs" "keywordResultToBookmark P (rs ! i) = Inr (Some b)"
    by simp_all
  then show ?thesis by blast
qed

lemma keywordResultsToBookmarks_all_dropped:
  assumes "\<forall>r\<in>set rs. keywordResultToBookmark P r = Inr None"
  shows "keywordResultsToBookmarks P rs = Inr []"
proof -
  have "list_all2 (\<lambda>x y. keywordResultToBookmark P x = Inr y) rs (map (\<lambda>r. None) rs)"
    using assms by (simp add: list_all2_conv_all_nth)
  from arrayMap_InrI [OF this] show ?thesis
    by (simp add: keywordResultsToBookmarks_def filter_empty_conv)
qed

lemma insertSorted_mset:
  "insertSorted cmp x ys = Inr zs \<Longrightarrow> mset zs = add_mset x (mset ys)"
  by (induction ys arbitrary: zs) (auto split: sum.splits if_splits)

lemma arraySort_mset: "arraySort cmp xs = Inr ys \<Longrightarrow> mset ys = mset xs"
  by (induction xs arbitrary: ys) (auto split: sum.splits dest: insertSorted_mset)

lemma resolveBookmarkFavicon_cases:
  "resolveBookmarkFavicon P b = Inr (Str (getDefaultFavicon P))
   \<or> (\<exists>icon. resolveBookmarkFavicon P b = Inr (Obj (b\<lparr>iconURL := icon\<rparr>)))"
  by (auto simp: resolveBookmarkFavicon_def split: sum.splits)

lemma promiseAllBookmarksWithFavicons_resolves:
  "promiseAllBookmarksWithFavicons P bs = Inr (map (\<lambda>b. projr (resolveBookmarkFavicon P b)) bs)"
proof -
  have "map (resolveBookmarkFavicon P) bs
      = map Inr (map (\<lambda>b. projr (resolveBookmarkFavicon P b)) bs)"
    using resolveBookmarkFavicon_cases [of P] by (induction bs) (auto, (metis sum.sel(2))+)
  then show ?thesis
    by (simp only: promiseAllBookmarksWithFavicons_def promiseAll_map_Inr)
qed

lemma promiseAllBookmarksWithFavicons_Obj:
  assumes "promiseAllBookmarksWithFavicons P bs = Inr vs" and "Obj b' \<in> set vs"
  shows "\<exists>b\<in>set bs. b' = b\<lparr>iconURL := iconURL b'\<rparr>"
proof -
  from assms promiseAllBookmarksWithFavicons_resolves [of P bs]
  obtain b where "b \<in> set bs" and "projr (resolveBookmarkFavicon P b) = Obj b'"
    by auto
  with resolveBookmarkFavicon_cases [of P b] have "b' = b\<lparr>iconURL := iconURL b'\<rparr>"
    by auto
  with \<open>b \<in> set bs\<close> show ?thesis by blast
qed

lemmas decode_eval = hexValue_def utf8Decode_def utf16Encode_def

lemmas platform_eval =
  examplePlatform_def exampleFetch_def exampleFavicon_def getKeywordBookmarksForTag_def
  keywordResultToBookmark_def keywordResultsToBookmarks_def decodedPostData_def
  resolveBookmarkFavicon_def promiseAllBookmarksWithFavicons_def
  base64_encode_def fromCharCode_def base64Char_def

lemmas sort_eval =
  sortBookmarksByTitle_def compareTitles_def titleOf_def rootCompare_def collationKey_def
  isUpper_def

lemma chain_stages:
  assumes "keywordBookmarksChain P tag = Inr vs"
  obtains krs bs es where "getKeywordBookmarksForTag P tag = Inr krs"
    and "keywordResultsToBookmarks P krs = Inr bs"
    and "promiseAllBookmarksWithFavicons P bs = Inr es"
    and "sortBookmarksByTitle P es = Inr vs"
  using assms by (auto simp: keywordBookmarksChain_def thenE_def split: sum.splits)

lemma chain_Obj_source:
  assumes "keywordBookmarksChain P tag = Inr vs" and "Obj b' \<in> set vs"
  shows "\<exists>r icon b. keywordResultToBookmark P r = Inr (Some b) \<and> b' = b\<lparr>iconURL := icon\<rparr>"
proof -
  from assms(1) obtain krs bs es where bs: "keywordResultsToBookmarks P krs = Inr bs"
    and es: "promiseAllBookmarksWithFavicons P bs = Inr es"
    and vs: "sortBookmarksByTitle P es = Inr vs"
    by (rule chain_stages)
  from vs have "mset vs = mset es"
    by (simp add: sortBookmarksByTitle_def arraySort_mset)
  then have "set vs = set es" by (rule mset_eq_setD)
  with assms(2) have "Obj b' \<in> set es" by simp
  from promiseAllBookmarksWithFavicons_Obj [OF es this]
  obtain b where b: "b \<in> set bs" "b' = b\<lparr>iconURL := iconURL b'\<rparr>" by blast
  from keywordResultsToBookmarks_source [OF bs b(1)] b(2) show ?thesis by blast
qed

text \<open>
  C5. A bookmark object is made from a keyword entry only if the URL of the entry or its
  percent-decoded POST data holds the marker \<open>%s\<close>: every bookmark that
  \<open>MCS.keywordResultsToBookmarks\<close> returns has the URL and the decoded POST data of an entry of
  the input, and one of the two holds the marker; an entry whose URL and decoded POST data
  both lack the marker gives \<open>null\<close>, not an exception; and every bookmark object that the
  whole chain delivers holds the marker in its URL or its POST data.
\<close>

theorem bookmark_only_from_entry_with_marker:
  assumes "keywordResultsToBookmarks P keywordResults = Inr bookmarks"
    and "b \<in> set bookmarks"
  shows "(\<exists>kr. Some kr \<in> set keywordResults \<and> url b = kr_href kr
            \<and> decodedPostData kr = Inr (postData b)
            \<and> (regexTest (js ''%s'') (kr_href kr) \<or> regexTest (js ''%s'') (postData b)))
   \<and> (\<forall>kr d. decodedPostData kr = Inr d \<longrightarrow> \<not> regexTest (js ''%s'') (kr_href kr)
          \<longrightarrow> \<not> regexTest (js ''%s'') d \<longrightarrow> keywordResultToBookmark P (Some kr) = Inr None)
   \<and> (\<forall>tag vs b'. keywordBookmarksChain P tag = Inr vs \<longrightarrow> Obj b' \<in> set vs
          \<longrightarrow> regexTest (js ''%s'') (url b') \<or> regexTest (js ''%s'') (postData b'))"
proof (intro conjI allI impI)
  from keywordResultsToBookmarks_source [OF assms]
  obtain r where r: "r \<in> set keywordResults" "keywordResultToBookmark P r = Inr (Some b)"
    by blast
  from keywordResultToBookmark_Some [OF r(2)] r(1)
  show "\<exists>kr. Some kr \<in> set keywordResults \<and> url b = kr_href kr
            \<and> decodedPostData kr = Inr (postData b)
            \<and> (regexTest (js ''%s'') (kr_href kr) \<or> regexTest (js ''%s'') (postData b))"
    by blast
next
  fix kr d
  assume "decodedPostData kr = Inr d" "\<not> regexTest (js ''%s'') (kr_href kr)"
    "\<not> regexTest (js ''%s'') d"
  then show "keywordResultToBookmark P (Some kr) = Inr None"
    by (rule keywordResultToBookmark_no_marker)
next
  fix tag vs b'
  assume "keywordBookmarksChain P tag = Inr vs" "Obj b' \<in> set vs"
  from chain_Obj_source [OF this]
  obtain r icon b0 where "keywordResultToBookmark P r = Inr (Some b0)" "b' = b0\<lparr>iconURL := icon\<rparr>"
    by blast
  with keywordResultToBookmark_Some [of P r b0]
  show "regexTest (js ''%s'') (url b') \<or> regexTest (js ''%s'') (postData b')"
    by auto
qed

theorem bookmark_only_from_entry_with_marker_witness:
  "\<exists>kr. Some kr \<in> set
       [Some \<lparr>kr_keyword = js ''a'', kr_href = js ''https://a.example/find'',
              kr_postData = Some (js ''q%3D%25s'')\<rparr>,
        Some \<lparr>kr_keyword = js ''p'', kr_href = js ''https://c.example/plain'', kr_postData = None\<rparr>]
     \<and> js ''https://a.example/find'' = kr_href kr
     \<and> decodedPostData kr = Inr (js ''q=%s'')
     \<and> (regexTest (js ''%s'') (kr_href kr) \<or> regexTest (js ''%s'') (js ''q=%s''))"
proof -
  let ?b = "\<lparr>bookmarkId = 5, description = js ''find it'', title = js ''a'',
             url = js ''https://a.example/find'', keyword = js ''a'', iconURL = [],
             postData = js ''q=%s''\<rparr>"
  let ?rs = "[Some \<lparr>kr_keyword = js ''a'', kr_href = js ''https://a.example/find'',
                    kr_postData = Some (js ''q%3D%25s'')\<rparr>,
              Some \<lparr>kr_keyword = js ''p'', kr_href = js ''https://c.example/plain'',
                    kr_postData = None\<rparr>]"
  have run: "keywordResultsToBookmarks examplePlatform ?rs = Inr [?b]"
    by (simp add: platform_eval decode_eval uri_eval js_def)
  have mem: "?b \<in> set [?b]" by simp
  from bookmark_only_from_entry_with_marker [OF run mem, THEN conjunct1]
  show ?thesis by simp
qed

lemma find_first:
  "find Q xs = Some x \<Longrightarrow> \<exists>pre post. xs = pre @ x # post \<and> Q x \<and> (\<forall>y\<in>set pre. \<not> Q y)"
proof (induction xs)
  case Nil
  then show ?case by simp
next
  case (Cons a xs)
  show ?case
  proof (cases "Q a")
    case True
    with Cons.prems have "a # xs = [] @ x # xs \<and> Q x \<and> (\<forall>y\<in>set []. \<not> Q y)" by simp
    then show ?thesis by blast
  next
    case False
    with Cons obtain pre post where "xs = pre @ x # post" "Q x" "\<forall>y\<in>set pre. \<not> Q y"
      by auto
    with False have "a # xs = (a # pre) @ x # post \<and> Q x \<and> (\<forall>y\<in>set (a # pre). \<not> Q y)"
      by simp
    then show ?thesis by blast
  qed
qed

lemma find_firstI:
  "xs = pre @ x # post \<Longrightarrow> Q x \<Longrightarrow> \<forall>y\<in>set pre. \<not> Q y \<Longrightarrow> find Q xs = Some x"
  by (induction pre arbitrary: xs) auto

lemma keywordResultToBookmark_found:
  assumes "decodedPostData kr = Inr d"
    and "regexTest (js ''%s'') (kr_href kr) \<or> regexTest (js ''%s'') d"
    and "newURI P (kr_href kr) = Inr uri"
    and "find (\<lambda>i. getItemType P i = TYPE_BOOKMARK) (getBookmarkIdsForURI P uri) = found"
  shows "keywordResultToBookmark P (Some kr) =
     (case found of
        None \<Rightarrow> Inr None
      | Some i \<Rightarrow>
          if i = 0 then Inr None
          else
            Inr (Some
              \<lparr>bookmarkId = i,
               description =
                 (if itemHasAnnotation P i (js ''bookmarkProperties/description'')
                  then getItemAnnotation P i (js ''bookmarkProperties/description'')
                  else []),
               title = getItemTitle P i,
               url = kr_href kr,
               keyword = kr_keyword kr,
               iconURL = [],
               postData = d\<rparr>))"
proof (cases "getBookmarkIdsForURI P uri")
  case Nil
  with assms show ?thesis
    by (auto simp: keywordResultToBookmark_def)
next
  case (Cons a as)
  with assms show ?thesis
    by (auto simp: keywordResultToBookmark_def Let_def split: option.splits)
qed

text \<open>
  C9 (as amended). For a keyword entry whose URL parses to \<open>uri\<close>. When the decoded POST
  data or the URL holds the marker and the ids that the repository returns for the URI are
  some ids of other types (folder, separator), then an id \<open>i\<close> of type \<open>TYPE_BOOKMARK\<close>,
  then any ids, \<open>MCS.keywordResultToBookmark\<close> returns the bookmark object with the id \<open>i\<close>,
  its title and its description: the first id of type \<open>TYPE_BOOKMARK\<close> is selected, in the
  order of the repository, whatever ids follow. This needs \<open>i\<close> not to be 0: an id 0 is
  falsy and gives \<open>null\<close>. When the URI has no id of type \<open>TYPE_BOOKMARK\<close> the entry gives
  \<open>null\<close>, no bookmark object. And whenever the function returns a bookmark object, its id
  is of type \<open>TYPE_BOOKMARK\<close>, not 0, and every id before it is of another type.
\<close>

theorem first_bookmark_type_id_is_selected:
  assumes "newURI P (kr_href kr) = Inr uri"
  shows "(\<forall>d pre i post.
            decodedPostData kr = Inr d
            \<longrightarrow> regexTest (js ''%s'') (kr_href kr) \<or> regexTest (js ''%s'') d
            \<longrightarrow> getBookmarkIdsForURI P uri = pre @ i # post
            \<longrightarrow> (\<forall>j\<in>set pre. getItemType P j \<noteq> TYPE_BOOKMARK)
            \<longrightarrow> getItemType P i = TYPE_BOOKMARK
            \<longrightarrow> i \<noteq> 0
            \<longrightarrow> keywordResultToBookmark P (Some kr) =
                  Inr (Some
                    \<lparr>bookmarkId = i,
                     description =
                       (if itemHasAnnotation P i (js ''bookmarkProperties/description'')
                        then getItemAnnotation P i (js ''bookmarkProperties/description'')
                        else []),
                     title = getItemTitle P i,
                     url = kr_href kr,
                     keyword = kr_keyword kr,
                     iconURL = [],
                     postData = d\<rparr>))
   \<and> (\<forall>d pre post.
            decodedPostData kr = Inr d
            \<longrightarrow> getBookmarkIdsForURI P uri = pre @ 0 # post
            \<longrightarrow> (\<forall>j\<in>set pre. getItemType P j \<noteq> TYPE_BOOKMARK)
            \<longrightarrow> getItemType P 0 = TYPE_BOOKMARK
            \<longrightarrow> keywordResultToBookmark P (Some kr) = Inr None)
   \<and> (\<forall>d. decodedPostData kr = Inr d
            \<longrightarrow> (\<forall>j\<in>set (getBookmarkIdsForURI P uri). getItemType P j \<noteq> TYPE_BOOKMARK)
            \<longrightarrow> keywordResultToBookmark P (Some kr) = Inr None)
   \<and> (\<forall>result. keywordResultToBookmark P (Some kr) = Inr result \<longrightarrow>
          (\<forall>b. result = Some b \<longrightarrow>
             getItemType P (bookmarkId b) = TYPE_BOOKMARK
             \<and> bookmarkId b \<noteq> 0
             \<and> (\<exists>pre post. getBookmarkIdsForURI P uri = pre @ bookmarkId b # post
                   \<and> (\<forall>i\<in>set pre. getItemType P i \<noteq> TYPE_BOOKMARK)))
          \<and> ((\<forall>i\<in>set (getBookmarkIdsForURI P uri). getItemType P i \<noteq> TYPE_BOOKMARK)
               \<longrightarrow> result = None))"
proof -
  let ?Q = "\<lambda>i. getItemType P i = TYPE_BOOKMARK"
  let ?ids = "getBookmarkIdsForURI P uri"
  have selected: "keywordResultToBookmark P (Some kr) =
                  Inr (Some
                    \<lparr>bookmarkId = i,
                     description =
                       (if itemHasAnnotation P i (js ''bookmarkProperties/description'')
                        then getItemAnnotation P i (js ''bookmarkProperties/description'')
                        else []),
                     title = getItemTitle P i,
                     url = kr_href kr,
                     keyword = kr_keyword kr,
                     iconURL = [],
                     postData = d\<rparr>)"
    if "decodedPostData kr = Inr d"
      and "regexTest (js ''%s'') (kr_href kr) \<or> regexTest (js ''%s'') d"
      and "?ids = pre @ i # post" and "\<forall>j\<in>set pre. getItemType P j \<noteq> TYPE_BOOKMARK"
      and "getItemType P i = TYPE_BOOKMARK" and "i \<noteq> 0"
    for d pre i post
  proof -
    have "find ?Q ?ids = Some i"
      using that(3,4,5) by (intro find_firstI [of _ pre i post]) auto
    from keywordResultToBookmark_found [OF that(1,2) assms this] that(6)
    show ?thesis by simp
  qed
  have zero: "keywordResultToBookmark P (Some kr) = Inr None"
    if "decodedPostData kr = Inr d"
      and "?ids = pre @ 0 # post" and "\<forall>j\<in>set pre. getItemType P j \<noteq> TYPE_BOOKMARK"
      and "getItemType P 0 = TYPE_BOOKMARK"
    for d pre post
  proof (cases "regexTest (js ''%s'') (kr_href kr) \<or> regexTest (js ''%s'') d")
    case True
    have "find ?Q ?ids = Some 0"
      using that(2,3,4) by (intro find_firstI [of _ pre 0 post]) auto
    from keywordResultToBookmark_found [OF that(1) True assms this]
    show ?thesis by simp
  next
    case False
    with that(1) show ?thesis by (simp add: keywordResultToBookmark_no_marker)
  qed
  have none: "keywordResultToBookmark P (Some kr) = Inr None"
    if "decodedPostData kr = Inr d"
      and "\<forall>j\<in>set ?ids. getItemType P j \<noteq> TYPE_BOOKMARK"
    for d
  proof (cases "regexTest (js ''%s'') (kr_href kr) \<or> regexTest (js ''%s'') d")
    case True
    have "find ?Q ?ids = None"
      using that(2) by (simp add: find_None_iff)
    from keywordResultToBookmark_found [OF that(1) True assms this]
    show ?thesis by simp
  next
    case False
    with that(1) show ?thesis by (simp add: keywordResultToBookmark_no_marker)
  qed
  have found: "getItemType P (bookmarkId b) = TYPE_BOOKMARK
      \<and> bookmarkId b \<noteq> 0
      \<and> (\<exists>pre post. ?ids = pre @ bookmarkId b # post
            \<and> (\<forall>i\<in>set pre. getItemType P i \<noteq> TYPE_BOOKMARK))"
    if "keywordResultToBookmark P (Some kr) = Inr (Some b)" for b
  proof -
    from keywordResultToBookmark_Some [OF that] assms
    have "find ?Q ?ids = Some (bookmarkId b)" and "bookmarkId b \<noteq> 0"
      by auto
    with find_first [of ?Q ?ids "bookmarkId b"] show ?thesis by blast
  qed
  have conv: "(\<forall>b. result = Some b \<longrightarrow>
             getItemType P (bookmarkId b) = TYPE_BOOKMARK
             \<and> bookmarkId b \<noteq> 0
             \<and> (\<exists>pre post. ?ids = pre @ bookmarkId b # post
                   \<and> (\<forall>i\<in>set pre. getItemType P i \<noteq> TYPE_BOOKMARK)))
          \<and> ((\<forall>i\<in>set ?ids. getItemType P i \<noteq> TYPE_BOOKMARK) \<longrightarrow> result = None)"
    if r: "keywordResultToBookmark P (Some kr) = Inr result" for result
  proof (cases result)
    case None
    then show ?thesis by simp
  next
    case (Some b)
    with r have "keywordResultToBookmark P (Some kr) = Inr (Some b)" by simp
    from found [OF this] Some show ?thesis by auto
  qed
  show ?thesis
    using selected zero none conv by (intro conjI allI impI) blast+
qed

theorem first_bookmark_type_id_is_selected_witness:
  "keywordResultToBookmark examplePlatform
     (Some \<lparr>kr_keyword = js ''a'', kr_href = js ''https://a.example/find'',
            kr_postData = Some (js ''q%3D%25s'')\<rparr>)
   = Inr (Some \<lparr>bookmarkId = 5, description = js ''find it'', title = js ''a'',
                url = js ''https://a.example/find'', keyword = js ''a'', iconURL = [],
                postData = js ''q=%s''\<rparr>)
   \<and> getBookmarkIdsForURI examplePlatform (URI (js ''https://a.example/find'')) = [12] @ 5 # []
   \<and> getItemType examplePlatform 12 = TYPE_FOLDER
   \<and> getItemType examplePlatform 5 = TYPE_BOOKMARK"
proof -
  let ?kr = "\<lparr>kr_keyword = js ''a'', kr_href = js ''https://a.example/find'',
               kr_postData = Some (js ''q%3D%25s'')\<rparr>"
  let ?uri = "URI (js ''https://a.example/find'')"
  have uri: "newURI examplePlatform (kr_href ?kr) = Inr ?uri"
    by (simp add: platform_eval uri_eval js_def)
  have dec: "decodedPostData ?kr = Inr (js ''q=%s'')"
    by (simp add: decodedPostData_def decode_eval js_def)
  have mark: "regexTest (js ''%s'') (kr_href ?kr) \<or> regexTest (js ''%s'') (js ''q=%s'')"
    by (simp add: js_def)
  have ids: "getBookmarkIdsForURI examplePlatform ?uri = [12] @ 5 # []"
    by (simp add: examplePlatform_def js_def)
  have before: "\<forall>j\<in>set [12]. getItemType examplePlatform j \<noteq> TYPE_BOOKMARK"
    by (simp add: examplePlatform_def)
  have folder: "getItemType examplePlatform 12 = TYPE_FOLDER"
    by (simp add: examplePlatform_def)
  have bm: "getItemType examplePlatform 5 = TYPE_BOOKMARK"
    by (simp add: examplePlatform_def)
  have nz: "(5::int) \<noteq> 0" by simp
  from first_bookmark_type_id_is_selected [OF uri, THEN conjunct1] dec mark ids before bm nz
  have "keywordResultToBookmark examplePlatform (Some ?kr) =
      Inr (Some
        \<lparr>bookmarkId = 5,
         description =
           (if itemHasAnnotation examplePlatform 5 (js ''bookmarkProperties/description'')
            then getItemAnnotation examplePlatform 5 (js ''bookmarkProperties/description'')
            else []),
         title = getItemTitle examplePlatform 5,
         url = kr_href ?kr,
         keyword = kr_keyword ?kr,
         iconURL = [],
         postData = js ''q=%s''\<rparr>)"
    by blast
  moreover have "itemHasAnnotation examplePlatform 5 (js ''bookmarkProperties/description'')"
    "getItemAnnotation examplePlatform 5 (js ''bookmarkProperties/description'') = js ''find it''"
    "getItemTitle examplePlatform 5 = js ''a''"
    by (simp_all add: examplePlatform_def)
  ultimately show ?thesis using ids folder bm by simp
qed

theorem lowest_id_not_selected_counterexample:
  "keywordResultToBookmark examplePlatform
     (Some \<lparr>kr_keyword = js ''x'', kr_href = js ''https://x.com/s?q=%s'', kr_postData = None\<rparr>)
   = Inr (Some \<lparr>bookmarkId = 7, description = [], title = js ''B'',
                url = js ''https://x.com/s?q=%s'', keyword = js ''x'', iconURL = [],
                postData = []\<rparr>)
   \<and> getBookmarkIdsForURI examplePlatform (URI (js ''https://x.com/s?q=%s'')) = [7, 3]
   \<and> getItemType examplePlatform 7 = TYPE_BOOKMARK
   \<and> getItemType examplePlatform 3 = TYPE_BOOKMARK
   \<and> (3::int) < 7"
  by (simp add: platform_eval decode_eval uri_eval js_def)

text \<open>
  C2. The code at a failing input. The tag has two URLs: the first has a keyword entry with
  the marker and a bookmark, the second has no keyword, so its fetch resolves with \<open>null\<close>.
  \<open>MCS.keywordResultToBookmark\<close> reads \<open>keywordResult.keyword\<close> of the \<open>null\<close>: the
  \<open>TypeError\<close> ends \<open>MCS.keywordResultsToBookmarks\<close> and rejects the chain, and the candidate
  of the first URL, which the same entry alone gives, is lost with it. A fetch that rejects
  for the second URL rejects \<open>MCS.getKeywordBookmarksForTag\<close> as a whole in the same way.
\<close>

theorem absent_keyword_aborts_the_batch:
  "getKeywordBookmarksForTag
     (examplePlatform\<lparr>getURIsForTag :=
        (\<lambda>tag. Inr [URI (js ''https://x.com/s?q=%s''), URI (js ''https://plain.example/'')])\<rparr>)
     (js ''search'')
   = Inr [Some \<lparr>kr_keyword = js ''x'', kr_href = js ''https://x.com/s?q=%s'', kr_postData = None\<rparr>,
          None]
   \<and> keywordResultsToBookmarks examplePlatform
       [Some \<lparr>kr_keyword = js ''x'', kr_href = js ''https://x.com/s?q=%s'', kr_postData = None\<rparr>,
        None]
     = Inl TypeError
   \<and> keywordResultsToBookmarks examplePlatform
       [Some \<lparr>kr_keyword = js ''x'', kr_href = js ''https://x.com/s?q=%s'', kr_postData = None\<rparr>]
     = Inr [\<lparr>bookmarkId = 7, description = [], title = js ''B'',
             url = js ''https://x.com/s?q=%s'', keyword = js ''x'', iconURL = [],
             postData = []\<rparr>]
   \<and> keywordBookmarksChain
       (examplePlatform\<lparr>getURIsForTag :=
          (\<lambda>tag. Inr [URI (js ''https://x.com/s?q=%s''), URI (js ''https://plain.example/'')])\<rparr>)
       (js ''search'')
     = Inl TypeError
   \<and> getKeywordBookmarksForTag
       (examplePlatform\<lparr>keywordsFetch :=
          (\<lambda>u. if u = js ''https://a.example/find'' then Inl RepositoryError else exampleFetch u)\<rparr>)
       (js ''search'')
     = Inl RepositoryError"
proof -
  let ?P = "examplePlatform\<lparr>getURIsForTag :=
        (\<lambda>tag. Inr [URI (js ''https://x.com/s?q=%s''), URI (js ''https://plain.example/'')])\<rparr>"
  let ?x = "\<lparr>kr_keyword = js ''x'', kr_href = js ''https://x.com/s?q=%s'', kr_postData = None\<rparr>"
  have fetch: "getKeywordBookmarksForTag ?P (js ''search'') = Inr [Some ?x, None]"
    by (simp add: platform_eval js_def)
  have abort: "keywordResultsToBookmarks P [Some ?x, None] = Inl TypeError"
    if "P = examplePlatform \<or> P = ?P" for P
    using that by (auto simp: platform_eval decode_eval uri_eval js_def)
  have alone: "keywordResultsToBookmarks examplePlatform [Some ?x]
     = Inr [\<lparr>bookmarkId = 7, description = [], title = js ''B'',
             url = js ''https://x.com/s?q=%s'', keyword = js ''x'', iconURL = [],
             postData = []\<rparr>]"
    by (simp add: platform_eval decode_eval uri_eval js_def)
  have chain: "keywordBookmarksChain ?P (js ''search'') = Inl TypeError"
    unfolding keywordBookmarksChain_def fetch thenE_def sum.case
    using abort [of ?P] by simp
  have rejected: "getKeywordBookmarksForTag
       (examplePlatform\<lparr>keywordsFetch :=
          (\<lambda>u. if u = js ''https://a.example/find'' then Inl RepositoryError else exampleFetch u)\<rparr>)
       (js ''search'')
     = Inl RepositoryError"
    by (simp add: platform_eval js_def)
  from fetch abort [of examplePlatform] alone chain rejected show ?thesis by simp
qed

text \<open>
  C1. The code at a failing input. The favicon of the first of two bookmarks has zero
  length: its promise resolves with the string of the default favicon, not with the
  bookmark object, so the first element of the result is no bookmark; the second bookmark
  gets its data URI.
\<close>

theorem empty_favicon_gives_a_string:
  "promiseAllBookmarksWithFavicons
     (examplePlatform\<lparr>promiseFaviconData :=
        (\<lambda>u. if u = js ''https://x.com/s?q=%s''
             then Inr \<lparr>dataLen = 0, data = [], mimeType = js ''image/png''\<rparr>
             else exampleFavicon u)\<rparr>)
     [\<lparr>bookmarkId = 7, description = [], title = js ''B'', url = js ''https://x.com/s?q=%s'',
       keyword = js ''x'', iconURL = [], postData = []\<rparr>,
      \<lparr>bookmarkId = 9, description = [], title = js ''C'', url = js ''https://c.example/?%s'',
       keyword = js ''c'', iconURL = [], postData = []\<rparr>]
   = Inr [Str (js ''chrome://mozapps/skin/places/defaultFavicon.png''),
          Obj \<lparr>bookmarkId = 9, description = [], title = js ''C'',
               url = js ''https://c.example/?%s'', keyword = js ''c'',
               iconURL = js ''data:image/x-icon;base64,TQ=='', postData = []\<rparr>]"
  by (simp add: platform_eval js_def)

text \<open>
  What holds of the enrichment on every input: it resolves, with as many elements as
  bookmarks, and each element is the string of the default favicon (zero-length data) or
  the bookmark with a new \<open>iconURL\<close>, which is a data URI or the default favicon.
\<close>

lemma enrichment_same_length:
  "\<exists>vs. promiseAllBookmarksWithFavicons P bs = Inr vs \<and> length vs = length bs
     \<and> (\<forall>i<length bs. vs ! i = Str (getDefaultFavicon P)
           \<or> vs ! i = Obj ((bs ! i)\<lparr>iconURL := getDefaultFavicon P\<rparr>)
           \<or> (\<exists>d. promiseFaviconData P (url (bs ! i)) = Inr d \<and> dataLen d \<noteq> 0
                 \<and> vs ! i = Obj ((bs ! i)\<lparr>iconURL :=
                      js ''data:'' @ mimeType d @ js '';base64,''
                        @ base64_encode (fromCharCode (data d))\<rparr>)))"
proof -
  have "projr (resolveBookmarkFavicon P b) = Str (getDefaultFavicon P)
      \<or> projr (resolveBookmarkFavicon P b) = Obj (b\<lparr>iconURL := getDefaultFavicon P\<rparr>)
      \<or> (\<exists>d. promiseFaviconData P (url b) = Inr d \<and> dataLen d \<noteq> 0
            \<and> projr (resolveBookmarkFavicon P b) = Obj (b\<lparr>iconURL :=
                 js ''data:'' @ mimeType d @ js '';base64,''
                   @ base64_encode (fromCharCode (data d))\<rparr>))" for b
    by (auto simp: resolveBookmarkFavicon_def split: sum.splits)
  then show ?thesis
    by (simp add: promiseAllBookmarksWithFavicons_resolves)
qed

text \<open>
  C4 (as amended). When the URI parser throws on the string that the substitution gives,
  \<open>getSubmission\<close> throws that exception to its caller and returns no submission;
  \<open>MCS.onMenuClicked\<close>, the caller, does not catch it.
\<close>

theorem getSubmission_throws_on_malformed_uri:
  assumes "encodedText searchText = Inr escaped"
    and "parseURI (replaceAll (js ''%s'') escaped (url bookmark)) = Inl e"
  shows "getSubmission parseURI bookmark searchText = Inl e
   \<and> (searchText \<noteq> [] \<longrightarrow> newURI P = parseURI \<longrightarrow> onMenuClicked P bookmark searchText = Inl e)"
  using assms by (simp add: getSubmission_def onMenuClicked_def)

theorem getSubmission_throws_on_malformed_uri_witness:
  "getSubmission absoluteURI
     \<lparr>bookmarkId = 7, description = [], title = js ''W'', url = js ''https://%s.example.org/wiki'',
      keyword = js ''w'', iconURL = [], postData = []\<rparr>
     (js ''x*'')
   = Inl NS_ERROR_MALFORMED_URI"
proof -
  let ?b = "\<lparr>bookmarkId = 7, description = [], title = js ''W'',
      url = js ''https://%s.example.org/wiki'', keyword = js ''w'', iconURL = [], postData = []\<rparr>"
  have enc: "encodedText (js ''x*'') = Inr (js ''x*'')" by (simp add: encode_eval)
  have bad: "absoluteURI (replaceAll (js ''%s'') (js ''x*'') (url ?b)) = Inl NS_ERROR_MALFORMED_URI"
    by (simp add: uri_eval js_def replaceAll_def)
  from getSubmission_throws_on_malformed_uri
    [where parseURI = absoluteURI and bookmark = ?b, OF enc bad, THEN conjunct1]
  show ?thesis .
qed

theorem getSubmission_no_typed_failure_counterexample:
  "absoluteURI (js ''http://%s.example.com/'') = Inr (URI (js ''http://%s.example.com/''))
   \<and> encodedText (js ''a*b'') = Inr (js ''a*b'')
   \<and> absoluteURI (js ''http://a*b.example.com/'') = Inl NS_ERROR_MALFORMED_URI
   \<and> getSubmission absoluteURI
       \<lparr>bookmarkId = 7, description = [], title = js ''E'', url = js ''http://%s.example.com/'',
        keyword = js ''e'', iconURL = [], postData = []\<rparr>
       (js ''a*b'')
     = Inl NS_ERROR_MALFORMED_URI"
proof -
  have enc: "encodedText (js ''a*b'') = Inr (js ''a*b'')" by (simp add: encode_eval)
  have "getSubmission absoluteURI
       \<lparr>bookmarkId = 7, description = [], title = js ''E'', url = js ''http://%s.example.com/'',
        keyword = js ''e'', iconURL = [], postData = []\<rparr>
       (js ''a*b'')
     = Inl NS_ERROR_MALFORMED_URI"
    unfolding getSubmission_def enc by (simp add: uri_eval js_def replaceAll_def)
  moreover have "absoluteURI (js ''http://%s.example.com/'') = Inr (URI (js ''http://%s.example.com/''))"
    by (simp add: uri_eval js_def)
  moreover have "absoluteURI (js ''http://a*b.example.com/'') = Inl NS_ERROR_MALFORMED_URI"
    by (simp add: uri_eval js_def)
  ultimately show ?thesis using enc by simp
qed

lemma getKeywordBookmarksForTag_all_present:
  assumes "getURIsForTag P tag = Inr uris"
    and "\<forall>u\<in>set uris. keywordsFetch P (spec u) = Inr (Some (f u))"
  shows "getKeywordBookmarksForTag P tag = Inr (map (\<lambda>u. Some (f u)) uris)"
proof -
  have "map (\<lambda>url. keywordsFetch P url) (map spec uris) = map Inr (map (\<lambda>u. Some (f u)) uris)"
    using assms(2) by simp
  then show ?thesis
    by (simp only: getKeywordBookmarksForTag_def assms(1) sum.case promiseAll_map_Inr)
qed

text \<open>
  C3 (as amended). When the tag has no URL, or when every URL of the tag has a keyword
  entry and no entry holds the marker in its URL or its decoded POST data, the chain
  resolves with the empty list and no menu item is added; with an empty tag the chain is
  not started and no menu item is added.
\<close>

theorem absence_of_input_gives_empty_result:
  assumes "getURIsForTag P tag = Inr uris"
    and "\<forall>u\<in>set uris. \<exists>kr d. keywordsFetch P (spec u) = Inr (Some kr)
           \<and> decodedPostData kr = Inr d
           \<and> \<not> regexTest (js ''%s'') (kr_href kr) \<and> \<not> regexTest (js ''%s'') d"
  shows "keywordBookmarksChain P tag = Inr []
   \<and> popupKeywordBookmarks P tag = []
   \<and> popupKeywordBookmarks P [] = []
   \<and> (\<forall>t. getURIsForTag P t = Inr [] \<longrightarrow> keywordBookmarksChain P t = Inr [])"
proof -
  have empty: "keywordBookmarksChain P t = Inr []" if "getURIsForTag P t = Inr []" for t
    using that
    by (simp add: keywordBookmarksChain_def thenE_def getKeywordBookmarksForTag_def
        keywordResultsToBookmarks_def promiseAllBookmarksWithFavicons_def
        sortBookmarksByTitle_def)
  from assms(2) obtain f where f: "\<forall>u\<in>set uris. \<exists>d. keywordsFetch P (spec u) = Inr (Some (f u))
           \<and> decodedPostData (f u) = Inr d
           \<and> \<not> regexTest (js ''%s'') (kr_href (f u)) \<and> \<not> regexTest (js ''%s'') d"
    by metis
  then have "\<forall>u\<in>set uris. keywordsFetch P (spec u) = Inr (Some (f u))" by blast
  from getKeywordBookmarksForTag_all_present [OF assms(1) this]
  have fetched: "getKeywordBookmarksForTag P tag = Inr (map (\<lambda>u. Some (f u)) uris)" .
  have "\<forall>r\<in>set (map (\<lambda>u. Some (f u)) uris). keywordResultToBookmark P r = Inr None"
    using f keywordResultToBookmark_no_marker by fastforce
  from keywordResultsToBookmarks_all_dropped [OF this]
  have dropped: "keywordResultsToBookmarks P (map (\<lambda>u. Some (f u)) uris) = Inr []" .
  have chain: "keywordBookmarksChain P tag = Inr []"
    unfolding keywordBookmarksChain_def fetched thenE_def sum.case dropped
    by (simp add: promiseAllBookmarksWithFavicons_def sortBookmarksByTitle_def)
  then have "popupKeywordBookmarks P tag = []"
    by (simp add: popupKeywordBookmarks_def)
  moreover have "popupKeywordBookmarks P [] = []"
    by (simp add: popupKeywordBookmarks_def)
  ultimately show ?thesis using chain empty by blast
qed

theorem absence_of_input_gives_empty_result_witness:
  "keywordBookmarksChain
     (examplePlatform\<lparr>getURIsForTag := (\<lambda>tag. Inr [URI (js ''https://plain.example/'')]),
        keywordsFetch := (\<lambda>u. Inr (Some \<lparr>kr_keyword = js ''p'', kr_href = u,
                                          kr_postData = Some (js ''a%3Db'')\<rparr>))\<rparr>)
     (js ''search'')
   = Inr []"
proof -
  let ?P = "examplePlatform\<lparr>getURIsForTag := (\<lambda>tag. Inr [URI (js ''https://plain.example/'')]),
        keywordsFetch := (\<lambda>u. Inr (Some \<lparr>kr_keyword = js ''p'', kr_href = u,
                                          kr_postData = Some (js ''a%3Db'')\<rparr>))\<rparr>"
  let ?kr = "\<lparr>kr_keyword = js ''p'', kr_href = js ''https://plain.example/'',
               kr_postData = Some (js ''a%3Db'')\<rparr>"
  have uris: "getURIsForTag ?P (js ''search'') = Inr [URI (js ''https://plain.example/'')]"
    by (simp add: examplePlatform_def)
  have one: "keywordsFetch ?P (js ''https://plain.example/'') = Inr (Some ?kr)
      \<and> decodedPostData ?kr = Inr (js ''a=b'')
      \<and> \<not> regexTest (js ''%s'') (kr_href ?kr) \<and> \<not> regexTest (js ''%s'') (js ''a=b'')"
    by (simp add: examplePlatform_def decodedPostData_def decode_eval js_def)
  have each: "\<forall>u\<in>set [URI (js ''https://plain.example/'')].
         \<exists>kr d. keywordsFetch ?P (spec u) = Inr (Some kr)
           \<and> decodedPostData kr = Inr d
           \<and> \<not> regexTest (js ''%s'') (kr_href kr) \<and> \<not> regexTest (js ''%s'') d"
  proof
    fix u
    assume "u \<in> set [URI (js ''https://plain.example/'')]"
    then have "spec u = js ''https://plain.example/''" by simp
    with one show "\<exists>kr d. keywordsFetch ?P (spec u) = Inr (Some kr)
           \<and> decodedPostData kr = Inr d
           \<and> \<not> regexTest (js ''%s'') (kr_href kr) \<and> \<not> regexTest (js ''%s'') d"
      by (intro exI [of _ ?kr] exI [of _ "js ''a=b''"]) (simp only:, simp)
  qed
  from absence_of_input_gives_empty_result [OF uris each, THEN conjunct1]
  show ?thesis .
qed

theorem unpaired_surrogate_throws_counterexample:
  "encodeURIComponent [0xD83D] = Inl URIError
   \<and> getSubmission absoluteURI
       \<lparr>bookmarkId = 7, description = [], title = js ''B'', url = js ''https://x.com/s?q=%s'',
        keyword = js ''x'', iconURL = [], postData = []\<rparr>
       [0xD83D]
     = Inl URIError
   \<and> onMenuClicked examplePlatform
       \<lparr>bookmarkId = 7, description = [], title = js ''B'', url = js ''https://x.com/s?q=%s'',
        keyword = js ''x'', iconURL = [], postData = []\<rparr>
       [0xD83D]
     = Inl URIError"
  by (simp add: onMenuClicked_def getSubmission_def encode_eval)

section \<open>Properties of the sort by title\<close>

lemma rootCompare_consistent: "consistentComparison rootCompare"
  by (auto simp: consistentComparison_def rootCompare_def)

lemma consistent_equal:
  assumes "consistentComparison lc" and "lc a t = 0" and "lc b t = 0"
  shows "lc a b = 0"
proof -
  have sym: "lc x y < 0 \<longleftrightarrow> 0 < lc y x" for x y
    using assms(1) by (simp add: consistentComparison_def)
  have trans: "lc x y \<le> 0 \<Longrightarrow> lc y z \<le> 0 \<Longrightarrow> lc x z \<le> 0" for x y z
    using assms(1) unfolding consistentComparison_def by blast
  have ta: "lc t a = 0" using sym [of t a] sym [of a t] assms(2) by linarith
  have tb: "lc t b = 0" using sym [of t b] sym [of b t] assms(3) by linarith
  have "lc a b \<le> 0" using trans [of a t b] assms(2) tb by simp
  moreover have "lc b a \<le> 0" using trans [of b t a] assms(3) ta by simp
  ultimately show ?thesis using sym [of a b] by linarith
qed

lemma compareTitles_Obj:
  "compareTitles P (Obj a) (Obj b) = Inr (localeCompare P (title a) (title b))"
  by (simp add: compareTitles_def titleOf_def)

lemma insertSorted_bookmarks:
  assumes cons: "consistentComparison (localeCompare P)"
    and sorted: "sorted_wrt (\<lambda>a b. localeCompare P (title a) (title b) \<le> 0) ys"
  shows "\<exists>zs. insertSorted (compareTitles P) (Obj x) (map Obj ys) = Inr (map Obj zs)
     \<and> mset zs = add_mset x (mset ys)
     \<and> sorted_wrt (\<lambda>a b. localeCompare P (title a) (title b) \<le> 0) zs
     \<and> (\<forall>t. filter (\<lambda>b. localeCompare P (title b) t = 0) zs
            = filter (\<lambda>b. localeCompare P (title b) t = 0) (x # ys))"
  using sorted
proof (induction ys)
  case Nil
  show ?case by (intro exI [of _ "[x]"]) simp
next
  case (Cons y ys)
  let ?lc = "localeCompare P"
  have sym: "?lc u v < 0 \<longleftrightarrow> 0 < ?lc v u" for u v
    using cons by (simp add: consistentComparison_def)
  have trans: "?lc u v \<le> 0 \<Longrightarrow> ?lc v w \<le> 0 \<Longrightarrow> ?lc u w \<le> 0" for u v w
    using cons unfolding consistentComparison_def by blast
  show ?case
  proof (cases "?lc (title x) (title y) \<le> 0")
    case True
    have "\<forall>z\<in>set ys. ?lc (title x) (title z) \<le> 0"
      using Cons.prems True trans by auto
    with True Cons.prems show ?thesis
      by (intro exI [of _ "x # y # ys"]) (simp add: compareTitles_Obj)
  next
    case False
    then have yx: "?lc (title y) (title x) \<le> 0" using sym [of "title y" "title x"] by simp
    from Cons.prems have "sorted_wrt (\<lambda>a b. ?lc (title a) (title b) \<le> 0) ys" by simp
    from Cons.IH [OF this] obtain zs where
      zs: "insertSorted (compareTitles P) (Obj x) (map Obj ys) = Inr (map Obj zs)"
      and ms: "mset zs = add_mset x (mset ys)"
      and so: "sorted_wrt (\<lambda>a b. ?lc (title a) (title b) \<le> 0) zs"
      and st: "\<forall>t. filter (\<lambda>b. ?lc (title b) t = 0) zs = filter (\<lambda>b. ?lc (title b) t = 0) (x # ys)"
      by blast
    from ms have "set zs = insert x (set ys)" by (metis set_mset_add_mset_insert set_mset_mset)
    with yx Cons.prems have "\<forall>z\<in>set zs. ?lc (title y) (title z) \<le> 0" by auto
    with so have so': "sorted_wrt (\<lambda>a b. ?lc (title a) (title b) \<le> 0) (y # zs)" by simp
    have st': "filter (\<lambda>b. ?lc (title b) t = 0) (y # zs)
        = filter (\<lambda>b. ?lc (title b) t = 0) (x # y # ys)" for t
    proof (cases "?lc (title x) t = 0 \<and> ?lc (title y) t = 0")
      case True
      then have "?lc (title x) (title y) = 0" using consistent_equal [OF cons] by blast
      with False show ?thesis by simp
    next
      case False
      with st show ?thesis by auto
    qed
    from zs False ms so' st' show ?thesis
      by (intro exI [of _ "y # zs"]) (simp add: compareTitles_Obj)
  qed
qed

lemma arraySort_bookmarks:
  assumes cons: "consistentComparison (localeCompare P)"
  shows "\<exists>zs. arraySort (compareTitles P) (map Obj bs) = Inr (map Obj zs)
     \<and> mset zs = mset bs
     \<and> sorted_wrt (\<lambda>a b. localeCompare P (title a) (title b) \<le> 0) zs
     \<and> (\<forall>t. filter (\<lambda>b. localeCompare P (title b) t = 0) zs
            = filter (\<lambda>b. localeCompare P (title b) t = 0) bs)"
proof (induction bs)
  case Nil
  show ?case by simp
next
  case (Cons b bs)
  then obtain ys where ys: "arraySort (compareTitles P) (map Obj bs) = Inr (map Obj ys)"
    and ms: "mset ys = mset bs"
    and so: "sorted_wrt (\<lambda>a b. localeCompare P (title a) (title b) \<le> 0) ys"
    and st: "\<forall>t. filter (\<lambda>b. localeCompare P (title b) t = 0) ys
            = filter (\<lambda>b. localeCompare P (title b) t = 0) bs"
    by blast
  from insertSorted_bookmarks [OF cons so, of b] obtain zs where
    zs: "insertSorted (compareTitles P) (Obj b) (map Obj ys) = Inr (map Obj zs)"
    and ms': "mset zs = add_mset b (mset ys)"
    and so': "sorted_wrt (\<lambda>a b. localeCompare P (title a) (title b) \<le> 0) zs"
    and st': "\<forall>t. filter (\<lambda>b. localeCompare P (title b) t = 0) zs
            = filter (\<lambda>b. localeCompare P (title b) t = 0) (b # ys)"
    by blast
  from ys zs ms ms' so' st st' show ?case
    by (intro exI [of _ zs]) simp
qed

text \<open>
  C6. With a consistent locale comparison, \<open>MCS.sortBookmarksByTitle\<close> returns, for every
  list of bookmark objects, the same bookmarks in ascending order of title under that
  comparison, and bookmarks with equal titles keep the order of the input. With the
  collation of the examples the titles \<open>B\<close>, \<open>a\<close>, \<open>C\<close> come out as \<open>a\<close>, \<open>B\<close>, \<open>C\<close>.
\<close>

theorem sortBookmarksByTitle_sorted_and_stable:
  assumes "consistentComparison (localeCompare P)"
  shows "(\<exists>sorted. sortBookmarksByTitle P (map Obj bookmarks) = Inr (map Obj sorted)
            \<and> mset sorted = mset bookmarks
            \<and> sorted_wrt (\<lambda>a b. localeCompare P (title a) (title b) \<le> 0) sorted
            \<and> (\<forall>t. filter (\<lambda>b. title b = t) sorted = filter (\<lambda>b. title b = t) bookmarks))
   \<and> sortBookmarksByTitle (P\<lparr>localeCompare := rootCompare\<rparr>)
       [Obj (b\<lparr>title := js ''B''\<rparr>), Obj (b\<lparr>title := js ''a''\<rparr>), Obj (b\<lparr>title := js ''C''\<rparr>)]
     = Inr [Obj (b\<lparr>title := js ''a''\<rparr>), Obj (b\<lparr>title := js ''B''\<rparr>), Obj (b\<lparr>title := js ''C''\<rparr>)]"
proof -
  let ?lc = "localeCompare P"
  from arraySort_bookmarks [OF assms, of bookmarks] obtain zs where
    zs: "arraySort (compareTitles P) (map Obj bookmarks) = Inr (map Obj zs)"
    and ms: "mset zs = mset bookmarks"
    and so: "sorted_wrt (\<lambda>a b. ?lc (title a) (title b) \<le> 0) zs"
    and st: "\<forall>t. filter (\<lambda>b. ?lc (title b) t = 0) zs = filter (\<lambda>b. ?lc (title b) t = 0) bookmarks"
    by blast
  have refl: "?lc t t = 0" for t
    using assms by (simp add: consistentComparison_def)
  have "filter (\<lambda>b. title b = t) xs
      = filter (\<lambda>b. title b = t) (filter (\<lambda>b. ?lc (title b) t = 0) xs)" for t xs
    using refl by (auto intro: filter_cong)
  with st have "filter (\<lambda>b. title b = t) zs = filter (\<lambda>b. title b = t) bookmarks" for t
    by metis
  with zs ms so have first: "\<exists>sorted. sortBookmarksByTitle P (map Obj bookmarks) = Inr (map Obj sorted)
            \<and> mset sorted = mset bookmarks
            \<and> sorted_wrt (\<lambda>a b. ?lc (title a) (title b) \<le> 0) sorted
            \<and> (\<forall>t. filter (\<lambda>b. title b = t) sorted = filter (\<lambda>b. title b = t) bookmarks)"
    unfolding sortBookmarksByTitle_def by blast
  have "sortBookmarksByTitle (P\<lparr>localeCompare := rootCompare\<rparr>)
       [Obj (b\<lparr>title := js ''B''\<rparr>), Obj (b\<lparr>title := js ''a''\<rparr>), Obj (b\<lparr>title := js ''C''\<rparr>)]
     = Inr [Obj (b\<lparr>title := js ''a''\<rparr>), Obj (b\<lparr>title := js ''B''\<rparr>), Obj (b\<lparr>title := js ''C''\<rparr>)]"
    by (simp add: sort_eval js_def)
  with first show ?thesis by blast
qed

theorem sortBookmarksByTitle_sorted_and_stable_witness:
  "\<exists>sorted. sortBookmarksByTitle examplePlatform
       (map Obj
         [\<lparr>bookmarkId = 7, description = [], title = js ''B'', url = js ''https://x.com/s?q=%s'',
           keyword = js ''x'', iconURL = [], postData = []\<rparr>,
          \<lparr>bookmarkId = 5, description = [], title = js ''a'', url = js ''https://a.example/?%s'',
           keyword = js ''a'', iconURL = [], postData = []\<rparr>,
          \<lparr>bookmarkId = 9, description = [], title = js ''B'', url = js ''https://c.example/?%s'',
           keyword = js ''c'', iconURL = [], postData = []\<rparr>])
     = Inr (map Obj sorted)
     \<and> mset sorted = mset
         [\<lparr>bookmarkId = 7, description = [], title = js ''B'', url = js ''https://x.com/s?q=%s'',
           keyword = js ''x'', iconURL = [], postData = []\<rparr>,
          \<lparr>bookmarkId = 5, description = [], title = js ''a'', url = js ''https://a.example/?%s'',
           keyword = js ''a'', iconURL = [], postData = []\<rparr>,
          \<lparr>bookmarkId = 9, description = [], title = js ''B'', url = js ''https://c.example/?%s'',
           keyword = js ''c'', iconURL = [], postData = []\<rparr>]
     \<and> sorted_wrt (\<lambda>a b. localeCompare examplePlatform (title a) (title b) \<le> 0) sorted
     \<and> (\<forall>t. filter (\<lambda>b. title b = t) sorted = filter (\<lambda>b. title b = t)
         [\<lparr>bookmarkId = 7, description = [], title = js ''B'', url = js ''https://x.com/s?q=%s'',
           keyword = js ''x'', iconURL = [], postData = []\<rparr>,
          \<lparr>bookmarkId = 5, description = [], title = js ''a'', url = js ''https://a.example/?%s'',
           keyword = js ''a'', iconURL = [], postData = []\<rparr>,
          \<lparr>bookmarkId = 9, description = [], title = js ''B'', url = js ''https://c.example/?%s'',
           keyword = js ''c'', iconURL = [], postData = []\<rparr>])"
proof -
  have cons: "consistentComparison (localeCompare examplePlatform)"
    using rootCompare_consistent by (simp add: examplePlatform_def)
  from sortBookmarksByTitle_sorted_and_stable [OF cons, THEN conjunct1]
  show ?thesis .
qed

lemma sortBookmarksByTitle_equal_titles_example:
  "sortBookmarksByTitle examplePlatform
       (map Obj
         [\<lparr>bookmarkId = 7, description = [], title = js ''B'', url = js ''https://x.com/s?q=%s'',
           keyword = js ''x'', iconURL = [], postData = []\<rparr>,
          \<lparr>bookmarkId = 5, description = [], title = js ''a'', url = js ''https://a.example/?%s'',
           keyword = js ''a'', iconURL = [], postData = []\<rparr>,
          \<lparr>bookmarkId = 9, description = [], title = js ''B'', url = js ''https://c.example/?%s'',
           keyword = js ''c'', iconURL = [], postData = []\<rparr>])
     = Inr (map Obj
         [\<lparr>bookmarkId = 5, description = [], title = js ''a'', url = js ''https://a.example/?%s'',
           keyword = js ''a'', iconURL = [], postData = []\<rparr>,
          \<lparr>bookmarkId = 7, description = [], title = js ''B'', url = js ''https://x.com/s?q=%s'',
           keyword = js ''x'', iconURL = [], postData = []\<rparr>,
          \<lparr>bookmarkId = 9, description = [], title = js ''B'', url = js ''https://c.example/?%s'',
           keyword = js ''c'', iconURL = [], postData = []\<rparr>])"
  by (simp add: sort_eval examplePlatform_def js_def)

section \<open>Properties of the code on the store\<close>

lemmas store_eval = resolveBookmarkFavicon_st_def assignIconURL_def
  promiseAllBookmarksWithFavicons_st_def sortBookmarksByTitle_st_def deref_def

text \<open>Where the fetch gives data that is not empty, or fails, the promise resolves with
  the reference it was given, and the store differs in the \<open>iconURL\<close> of that object only.\<close>

lemma resolveBookmarkFavicon_st_in_place:
  assumes "promiseFaviconData P (url (objects S r)) \<noteq> Inr d \<or> dataLen d \<noteq> 0"
    and "promiseFaviconData P (url (objects S r)) = Inr d \<or> (\<exists>e. promiseFaviconData P (url (objects S r)) = Inl e)"
  shows "fst (resolveBookmarkFavicon_st P r S) = Ref r
     \<and> (\<exists>icon. snd (resolveBookmarkFavicon_st P r S) = assignIconURL r icon S)"
  using assms by (auto simp: resolveBookmarkFavicon_st_def split: sum.splits)

lemma resolveBookmarkFavicon_st_frame:
  "arrays (snd (resolveBookmarkFavicon_st P r S)) = arrays S
   \<and> nextRef (snd (resolveBookmarkFavicon_st P r S)) = nextRef S
   \<and> (\<forall>q. q \<noteq> r \<longrightarrow> objects (snd (resolveBookmarkFavicon_st P r S)) q = objects S q)
   \<and> objects (snd (resolveBookmarkFavicon_st P r S)) r
       = (objects S r)\<lparr>iconURL := iconURL (objects (snd (resolveBookmarkFavicon_st P r S)) r)\<rparr>"
  by (auto simp: resolveBookmarkFavicon_st_def assignIconURL_def split: sum.splits)

lemma resolveBookmarkFavicon_st_value:
  "deref (snd (resolveBookmarkFavicon_st P r S)) (fst (resolveBookmarkFavicon_st P r S))
     = projr (resolveBookmarkFavicon P (objects S r))"
  by (auto simp: resolveBookmarkFavicon_st_def resolveBookmarkFavicon_def assignIconURL_def
      deref_def split: sum.splits)

lemma sortBookmarksByTitle_st_in_place:
  assumes "sortBookmarksByTitle_st P a S = Inr (a', S')"
  shows "a' = a \<and> objects S' = objects S \<and> nextRef S' = nextRef S
     \<and> (\<forall>c. c \<noteq> a \<longrightarrow> arrays S' c = arrays S c)
     \<and> mset (arrays S' a) = mset (arrays S a)
     \<and> sortBookmarksByTitle P (map (deref S) (arrays S a)) = Inr (map (deref S') (arrays S' a))"
proof -
  from assms obtain vs where
    vs: "arraySort (\<lambda>x y. compareTitles P (deref S x) (deref S y)) (arrays S a) = Inr vs"
    and a': "a' = a" and S': "S' = S\<lparr>arrays := (arrays S)(a := vs)\<rparr>"
    by (auto simp: sortBookmarksByTitle_st_def split: sum.splits)
  have ins: "insertSorted (\<lambda>x y. cmp (f x) (f y)) x ys = Inr zs
      \<Longrightarrow> insertSorted cmp (f x) (map f ys) = Inr (map f zs)" for cmp f x ys zs
    by (induction ys arbitrary: zs) (auto split: sum.splits if_splits)
  have srt: "arraySort (\<lambda>x y. cmp (f x) (f y)) xs = Inr zs
      \<Longrightarrow> arraySort cmp (map f xs) = Inr (map f zs)" for cmp f xs zs
    by (induction xs arbitrary: zs) (auto split: sum.splits dest: ins)
  have "deref S' = deref S" by (rule ext) (simp add: deref_def S' split: hval.splits)
  with srt [of "compareTitles P" "deref S", OF vs] arraySort_mset [OF vs] a' S' show ?thesis
    by (simp add: sortBookmarksByTitle_def)
qed

lemma resolveBookmarkFavicon_ignores_iconURL:
  "resolveBookmarkFavicon P (b\<lparr>iconURL := i\<rparr>) = resolveBookmarkFavicon P b"
  by (simp add: resolveBookmarkFavicon_def split: sum.splits)

lemma resolveBookmarkFavicon_st_usable:
  assumes "\<not> faviconIsEmpty P (url (objects S r))"
  shows "\<exists>icon. resolveBookmarkFavicon_st P r S = (Ref r, assignIconURL r icon S)
     \<and> resolveBookmarkFavicon P (objects S r) = Inr (Obj ((objects S r)\<lparr>iconURL := icon\<rparr>))"
  using assms
  by (auto simp: resolveBookmarkFavicon_st_def resolveBookmarkFavicon_def faviconIsEmpty_def
      split: sum.splits)

lemma settleAll_in_place:
  assumes "\<forall>r\<in>set rs. \<not> faviconIsEmpty P (url (objects S r))"
    and "settleAll P rs S = (vs, S')"
  shows "vs = map Ref rs \<and> arrays S' = arrays S \<and> nextRef S' = nextRef S
     \<and> (\<forall>q. \<exists>icon. objects S' q = (objects S q)\<lparr>iconURL := icon\<rparr>)
     \<and> (\<forall>q. q \<notin> set rs \<longrightarrow> objects S' q = objects S q)
     \<and> (\<forall>r\<in>set rs. resolveBookmarkFavicon P (objects S r) = Inr (Obj (objects S' r)))"
  using assms
proof (induction rs arbitrary: S vs S')
  case Nil
  have "\<exists>icon. objects S q = (objects S q)\<lparr>iconURL := icon\<rparr>" for q
    by (rule exI [of _ "iconURL (objects S q)"]) simp
  with Nil show ?case by auto
next
  case (Cons r rs)
  from Cons.prems(1) have "\<not> faviconIsEmpty P (url (objects S r))" by simp
  from resolveBookmarkFavicon_st_usable [OF this] obtain icon where
    step: "resolveBookmarkFavicon_st P r S = (Ref r, assignIconURL r icon S)"
    and pure: "resolveBookmarkFavicon P (objects S r) = Inr (Obj ((objects S r)\<lparr>iconURL := icon\<rparr>))"
    by blast
  let ?Sa = "assignIconURL r icon S"
  have obj: "objects ?Sa q = (if q = r then (objects S r)\<lparr>iconURL := icon\<rparr> else objects S q)" for q
    by (simp add: assignIconURL_def)
  have same_url: "url (objects ?Sa q) = url (objects S q)" for q
    by (simp add: obj)
  obtain ws Sb where rest: "settleAll P rs ?Sa = (ws, Sb)" by (cases "settleAll P rs ?Sa")
  with Cons.prems(2) step have vs: "vs = Ref r # ws" and S': "S' = Sb" by simp_all
  have "\<forall>q\<in>set rs. \<not> faviconIsEmpty P (url (objects ?Sa q))"
    using Cons.prems(1) by (simp add: same_url)
  from Cons.IH [OF this rest] have
    ws: "ws = map Ref rs" and ar: "arrays Sb = arrays ?Sa" and nx: "nextRef Sb = nextRef ?Sa"
    and icons: "\<forall>q. \<exists>i. objects Sb q = (objects ?Sa q)\<lparr>iconURL := i\<rparr>"
    and frame: "\<forall>q. q \<notin> set rs \<longrightarrow> objects Sb q = objects ?Sa q"
    and fin: "\<forall>q\<in>set rs. resolveBookmarkFavicon P (objects ?Sa q) = Inr (Obj (objects Sb q))"
    by blast+
  have pure_same: "resolveBookmarkFavicon P (objects ?Sa q) = resolveBookmarkFavicon P (objects S q)" for q
    by (simp add: obj resolveBookmarkFavicon_ignores_iconURL)
  have 1: "vs = map Ref (r # rs)" using vs ws by simp
  have 2: "arrays S' = arrays S \<and> nextRef S' = nextRef S"
    using ar nx S' by (simp add: assignIconURL_def)
  have 3: "\<exists>i. objects S' q = (objects S q)\<lparr>iconURL := i\<rparr>" for q
  proof -
    from icons obtain i where "objects Sb q = (objects ?Sa q)\<lparr>iconURL := i\<rparr>" by blast
    then have "objects S' q = (objects S q)\<lparr>iconURL := i\<rparr>" by (simp add: S' obj)
    then show ?thesis by blast
  qed
  have 4: "objects S' q = objects S q" if "q \<notin> set (r # rs)" for q
    using that frame by (simp add: S' obj)
  have 5: "resolveBookmarkFavicon P (objects S q) = Inr (Obj (objects S' q))" if "q \<in> set (r # rs)" for q
  proof (cases "q \<in> set rs")
    case True
    with fin pure_same [of q] show ?thesis by (simp add: S')
  next
    case False
    with that have "q = r" by simp
    with False frame pure show ?thesis by (simp add: S' obj)
  qed
  from 1 2 3 4 5 show ?case by blast
qed

lemma arraySort_refs_returns:
  assumes "\<forall>v\<in>set vs. \<exists>r. v = Ref r"
  shows "\<exists>ws. arraySort (\<lambda>a b. compareTitles P (deref S a) (deref S b)) vs = Inr ws"
proof -
  let ?cmp = "\<lambda>a b. compareTitles P (deref S a) (deref S b)"
  have cmp: "\<exists>k. ?cmp (Ref x) v = Inr k" for x v
    by (simp add: compareTitles_def titleOf_def deref_def)
  have ins: "\<exists>zs. insertSorted ?cmp (Ref x) ys = Inr zs" for x ys
  proof (induction ys)
    case Nil
    show ?case by simp
  next
    case (Cons y ys)
    from cmp [of x y] obtain k where "?cmp (Ref x) y = Inr k" by blast
    with Cons show ?case by (cases "k \<le> 0") auto
  qed
  from assms show ?thesis
  proof (induction vs)
    case Nil
    show ?case by simp
  next
    case (Cons v vs)
    then obtain x ws where "v = Ref x" and "arraySort ?cmp vs = Inr ws" by auto
    with ins [of x ws] show ?case by auto
  qed
qed

text \<open>
  What holds where no favicon is empty. For bookmark objects whose favicon fetch gives data
  that is not empty, or fails, the array that \<open>MCS.promiseAllBookmarksWithFavicons\<close> resolves
  with holds the same references in the same order, the store differs from the one before
  in the \<open>iconURL\<close> of these objects only (and in the new array), and each object now is
  what \<open>MCS.resolveBookmarkFavicon\<close> computes for it. For an array of bookmark objects
  \<open>MCS.sortBookmarksByTitle\<close> returns the reference of the array it was given, and the store
  differs in the order of that array only.
\<close>

lemma favicons_and_sort_mutate_in_place:
  assumes usable: "\<forall>r\<in>set bookmarks. \<not> faviconIsEmpty P (url (objects S r))"
    and refs: "\<forall>v\<in>set (arrays T a). \<exists>r. v = Ref r"
  shows "(\<exists>S'. promiseAllBookmarksWithFavicons_st P bookmarks S = (nextRef S, S')
            \<and> arrays S' (nextRef S) = map Ref bookmarks
            \<and> (\<forall>c. c \<noteq> nextRef S \<longrightarrow> arrays S' c = arrays S c)
            \<and> (\<forall>q. \<exists>icon. objects S' q = (objects S q)\<lparr>iconURL := icon\<rparr>)
            \<and> (\<forall>q. q \<notin> set bookmarks \<longrightarrow> objects S' q = objects S q)
            \<and> (\<forall>r\<in>set bookmarks. resolveBookmarkFavicon P (objects S r) = Inr (Obj (objects S' r))))
   \<and> (\<exists>T'. sortBookmarksByTitle_st P a T = Inr (a, T')
            \<and> objects T' = objects T
            \<and> (\<forall>c. c \<noteq> a \<longrightarrow> arrays T' c = arrays T c)
            \<and> mset (arrays T' a) = mset (arrays T a)
            \<and> sortBookmarksByTitle P (map (deref T) (arrays T a))
                = Inr (map (deref T') (arrays T' a)))"
proof -
  obtain vs S1 where run: "settleAll P bookmarks S = (vs, S1)"
    by (cases "settleAll P bookmarks S")
  from settleAll_in_place [OF usable run] have
    vs: "vs = map Ref bookmarks" and ar: "arrays S1 = arrays S" and nx: "nextRef S1 = nextRef S"
    and icons: "\<forall>q. \<exists>icon. objects S1 q = (objects S q)\<lparr>iconURL := icon\<rparr>"
    and frame: "\<forall>q. q \<notin> set bookmarks \<longrightarrow> objects S1 q = objects S q"
    and pure: "\<forall>r\<in>set bookmarks. resolveBookmarkFavicon P (objects S r) = Inr (Obj (objects S1 r))"
    by blast+
  let ?S' = "S1\<lparr>arrays := (arrays S1)(nextRef S1 := vs), nextRef := Suc (nextRef S1)\<rparr>"
  have "promiseAllBookmarksWithFavicons_st P bookmarks S = (nextRef S, ?S')"
    by (simp add: promiseAllBookmarksWithFavicons_st_def run nx)
  moreover have "arrays ?S' (nextRef S) = map Ref bookmarks" by (simp add: nx vs)
  moreover have "\<forall>c. c \<noteq> nextRef S \<longrightarrow> arrays ?S' c = arrays S c" by (simp add: nx ar)
  moreover have "objects ?S' = objects S1" by simp
  ultimately have first: "\<exists>S'. promiseAllBookmarksWithFavicons_st P bookmarks S = (nextRef S, S')
            \<and> arrays S' (nextRef S) = map Ref bookmarks
            \<and> (\<forall>c. c \<noteq> nextRef S \<longrightarrow> arrays S' c = arrays S c)
            \<and> (\<forall>q. \<exists>icon. objects S' q = (objects S q)\<lparr>iconURL := icon\<rparr>)
            \<and> (\<forall>q. q \<notin> set bookmarks \<longrightarrow> objects S' q = objects S q)
            \<and> (\<forall>r\<in>set bookmarks. resolveBookmarkFavicon P (objects S r) = Inr (Obj (objects S' r)))"
    using icons frame pure by (intro exI [of _ ?S']) (simp only:, blast)
  from arraySort_refs_returns [OF refs, of P T] obtain ws where
    "arraySort (\<lambda>a b. compareTitles P (deref T a) (deref T b)) (arrays T a) = Inr ws"
    by blast
  then have ret: "sortBookmarksByTitle_st P a T = Inr (a, T\<lparr>arrays := (arrays T)(a := ws)\<rparr>)"
    by (simp add: sortBookmarksByTitle_st_def)
  from sortBookmarksByTitle_st_in_place [OF ret] ret
  have second: "\<exists>T'. sortBookmarksByTitle_st P a T = Inr (a, T')
            \<and> objects T' = objects T
            \<and> (\<forall>c. c \<noteq> a \<longrightarrow> arrays T' c = arrays T c)
            \<and> mset (arrays T' a) = mset (arrays T a)
            \<and> sortBookmarksByTitle P (map (deref T) (arrays T a))
                = Inr (map (deref T') (arrays T' a))"
    by (intro exI [of _ "T\<lparr>arrays := (arrays T)(a := ws)\<rparr>"]) blast
  from first second show ?thesis by (rule conjI)
qed

lemma favicons_and_sort_mutate_in_place_example:
  "(\<exists>S'. promiseAllBookmarksWithFavicons_st examplePlatform [0, 1, 0] exampleStore = (21, S')
       \<and> arrays S' 21 = [Ref 0, Ref 1, Ref 0]
       \<and> (\<forall>q. \<exists>icon. objects S' q = (objects exampleStore q)\<lparr>iconURL := icon\<rparr>))
   \<and> (\<exists>T'. sortBookmarksByTitle_st examplePlatform 20 exampleStore = Inr (20, T')
       \<and> objects T' = objects exampleStore
       \<and> mset (arrays T' 20) = mset [Ref 0, Ref 1])"
proof -
  have usable: "\<forall>r\<in>set [0, 1, 0]. \<not> faviconIsEmpty examplePlatform (url (objects exampleStore r))"
    by (simp add: faviconIsEmpty_def exampleStore_def examplePlatform_def exampleFavicon_def js_def)
  have refs: "\<forall>v\<in>set (arrays exampleStore 20). \<exists>r. v = Ref r"
    by (simp add: exampleStore_def)
  have nx: "nextRef exampleStore = 21" and ar: "arrays exampleStore 20 = [Ref 0, Ref 1]"
    by (simp_all add: exampleStore_def)
  from favicons_and_sort_mutate_in_place [OF usable refs]
  show ?thesis unfolding nx ar by (simp only: list.map) blast
qed

lemma favicons_in_place_example:
  "fst (promiseAllBookmarksWithFavicons_st examplePlatform [0, 1] exampleStore) = 21
   \<and> arrays (snd (promiseAllBookmarksWithFavicons_st examplePlatform [0, 1] exampleStore)) 21
       = [Ref 0, Ref 1]
   \<and> iconURL (objects (snd (promiseAllBookmarksWithFavicons_st examplePlatform [0, 1] exampleStore)) 0)
       = js ''data:image/png;base64,TWFu''
   \<and> iconURL (objects (snd (promiseAllBookmarksWithFavicons_st examplePlatform [0, 1] exampleStore)) 1)
       = js ''chrome://mozapps/skin/places/defaultFavicon.png''"
  by (simp add: store_eval exampleStore_def platform_eval js_def)

text \<open>
  C10. The code at a failing input. The favicon fetch of the object 0 resolves with data of
  length zero, the fetch of the object 1 fails. The array that
  \<open>MCS.promiseAllBookmarksWithFavicons\<close> resolves with holds a string in the place of the
  object 0, not its reference, and the \<open>iconURL\<close> of the object 0 is not written; the object
  1 is there by reference, its \<open>iconURL\<close> written in place.
\<close>

theorem empty_favicon_resolves_with_string_not_reference:
  "resolveBookmarkFavicon_st
     (examplePlatform\<lparr>promiseFaviconData :=
        (\<lambda>u. if u = js ''https://x.com/s?q=%s''
             then Inr \<lparr>dataLen = 0, data = [], mimeType = js ''image/png''\<rparr>
             else exampleFavicon u)\<rparr>)
     0 exampleStore
   = (Prim (js ''chrome://mozapps/skin/places/defaultFavicon.png''), exampleStore)
   \<and> arrays (snd (promiseAllBookmarksWithFavicons_st
       (examplePlatform\<lparr>promiseFaviconData :=
          (\<lambda>u. if u = js ''https://x.com/s?q=%s''
               then Inr \<lparr>dataLen = 0, data = [], mimeType = js ''image/png''\<rparr>
               else exampleFavicon u)\<rparr>)
       [0, 1] exampleStore)) 21
     = [Prim (js ''chrome://mozapps/skin/places/defaultFavicon.png''), Ref 1]
   \<and> iconURL (objects (snd (promiseAllBookmarksWithFavicons_st
       (examplePlatform\<lparr>promiseFaviconData :=
          (\<lambda>u. if u = js ''https://x.com/s?q=%s''
               then Inr \<lparr>dataLen = 0, data = [], mimeType = js ''image/png''\<rparr>
               else exampleFavicon u)\<rparr>)
       [0, 1] exampleStore)) 0)
     = []
   \<and> iconURL (objects (snd (promiseAllBookmarksWithFavicons_st
       (examplePlatform\<lparr>promiseFaviconData :=
          (\<lambda>u. if u = js ''https://x.com/s?q=%s''
               then Inr \<lparr>dataLen = 0, data = [], mimeType = js ''image/png''\<rparr>
               else exampleFavicon u)\<rparr>)
       [0, 1] exampleStore)) 1)
     = js ''chrome://mozapps/skin/places/defaultFavicon.png''"
  by (simp add: store_eval exampleStore_def platform_eval js_def)

end
